theory Spec2Isabelle
  imports Main "HOL-Library.Sublist"
begin

section \<open>Data model (AgentControllerTypes.ts, AgentStore.ts)\<close>

text \<open>
  The TypeScript interfaces become records, the unions of string literals become
  datatypes, and an optional field \<open>f?: T\<close> becomes a field of type \<open>T option\<close>.
  Values of type \<open>unknown\<close> (metadata values, annotations) are the JSON values the
  store can write to a file.  JavaScript numbers are modelled as \<open>int\<close>: token counts
  and Unix seconds are integers in every call of the runtime.
\<close>

datatype json =
    JNull
  | JBool bool
  | JNum int
  | JStr string
  | JArr "json list"
  | JObj "(string \<times> json) list"

type_synonym metadata = "(string \<times> json) list"

text \<open>\<open>InputMessage.role\<close>; \<open>MessageObject.role\<close> is the same string at run time
  (\<open>m.role as 'user' | 'assistant'\<close> is a cast, not a check).\<close>

datatype role = User | Assistant | System

datatype message_status = MsgInProgress | MsgIncomplete | MsgCompleted

datatype run_status =
  Queued | InProgress | Completed | Failed | Cancelled | Cancelling | Expired

text \<open>The string a \<open>RunStatus\<close> is at run time (used in error messages).\<close>

fun status_name :: "run_status \<Rightarrow> string" where
  "status_name Queued = ''queued''"
| "status_name InProgress = ''in_progress''"
| "status_name Completed = ''completed''"
| "status_name Failed = ''failed''"
| "status_name Cancelled = ''cancelled''"
| "status_name Cancelling = ''cancelling''"
| "status_name Expired = ''expired''"

text \<open>\<open>InputContentPart = {type: 'text', text: string}\<close> and the two shapes of
  \<open>InputMessage.content\<close>.\<close>

datatype input_content =
    InputString string
  | InputParts "string list"

record input_message =
  im_role :: role
  im_content :: input_content
  im_metadata :: "metadata option"

text \<open>\<open>TextContentBlock = {type: 'text', text: {value, annotations}}\<close>.\<close>

record content_block =
  cb_value :: string
  cb_annotations :: "json list"

record message_object =
  m_id :: string
  m_object :: string
  m_created_at :: int
  m_thread_id :: "string option"
  m_run_id :: "string option"
  m_role :: role
  m_status :: message_status
  m_content :: "content_block list"
  m_metadata :: "metadata option"

record agent_run_config =
  max_iterations :: "int option"
  timeout_ms :: "int option"

record agent_run_usage =
  total_tokens :: "int option"
  prompt_tokens :: "int option"
  completion_tokens :: "int option"
  duration_ms :: "int option"

text \<open>The \<open>message\<close> field of an \<open>AgentStreamMessage\<close>: its content is a string or
  a list of parts \<open>{type: string, text: string}\<close>, here pairs \<open>(type, text)\<close>.\<close>

datatype stream_content =
    StreamString string
  | StreamParts "(string \<times> string) list"

record stream_message =
  sm_role :: string
  sm_content :: stream_content

record agent_stream_message =
  sm_type :: string
  message :: "stream_message option"
  usage :: "agent_run_usage option"

record run_error =
  code :: string
  err_message :: string

record run_usage =
  u_prompt_tokens :: int
  u_completion_tokens :: int
  u_total_tokens :: int

record thread_record =
  t_id :: string
  t_object :: string
  t_messages :: "message_object list"
  t_metadata :: metadata
  t_created_at :: int

record run_record =
  r_id :: string
  r_object :: string
  r_thread_id :: "string option"
  r_status :: run_status
  r_input :: "input_message list"
  r_output :: "message_object list option"
  r_last_error :: "run_error option"
  r_usage :: "run_usage option"
  r_config :: "agent_run_config option"
  r_metadata :: "metadata option"
  r_created_at :: int
  r_started_at :: "int option"
  r_completed_at :: "int option"
  r_cancelled_at :: "int option"
  r_failed_at :: "int option"

record thread_object =
  to_id :: string
  to_object :: string
  to_created_at :: int
  to_metadata :: metadata

record thread_object_with_messages = thread_object +
  to_messages :: "message_object list"

record run_object =
  ro_id :: string
  ro_object :: string
  ro_created_at :: int
  ro_thread_id :: "string option"
  ro_status :: run_status
  ro_last_error :: "run_error option"
  ro_started_at :: "int option"
  ro_completed_at :: "int option"
  ro_cancelled_at :: "int option"
  ro_failed_at :: "int option"
  ro_usage :: "run_usage option"
  ro_metadata :: "metadata option"
  ro_output :: "message_object list option"
  ro_config :: "agent_run_config option"

record create_run_input =
  thread_id :: "string option"
  input_messages :: "input_message list"
  config :: "agent_run_config option"
  metadata :: "metadata option"

text \<open>A JavaScript \<open>Error\<close>, identified by its message.\<close>

datatype error = Error string

fun error_message :: "error \<Rightarrow> string" where
  "error_message (Error m) = m"


section \<open>The world: files, random ids, the clock, the task registry\<close>

text \<open>
  The directories \<open>threads/\<close> and \<open>runs/\<close> of the file store are two maps from a
  file path to the JSON document the file holds (a thread record, a run record).
  \<open>crypto.randomUUID()\<close> and \<open>Date.now()\<close> read the environment: the world carries
  the sequence of UUIDs and of clock readings (in Unix seconds) and the number of
  reads made so far.  I/O failures other than a missing file are not modelled.

  An entry of \<open>__runningTasks\<close> stands for the background closure of \<open>asyncRun\<close>:
  the run it works on, the thread it appends to and the input it passes to
  \<open>execRun\<close>.
\<close>

record task =
  task_run :: run_record
  task_thread_id :: string
  task_input :: create_run_input

text \<open>What \<open>streamRun\<close> writes to the raw response: the status line and headers, then
  SSE frames \<open>event: <name>\<close>, \<open>data: <JSON>\<close>.  A frame keeps the object that
  \<open>JSON.stringify\<close> is applied to.\<close>

record message_delta =
  d_id :: string
  d_object :: string
  d_content :: "content_block list"

datatype sse_payload =
    RunData run_object
  | MessageData message_object
  | DeltaData message_delta
  | DoneData

record sse_frame =
  event_name :: string
  payload :: sse_payload

record world =
  thread_files :: "string \<rightharpoonup> thread_record"
  run_files :: "string \<rightharpoonup> run_record"
  running_tasks :: "string \<rightharpoonup> task"
  res_head :: "(nat \<times> (string \<times> string) list) option"
  res_body :: "sse_frame list"
  res_ended :: bool
  uuid_source :: "nat \<Rightarrow> string"
  uuid_count :: nat
  clock :: "nat \<Rightarrow> int"
  clock_reads :: nat

text \<open>An effectful computation returns a value or throws, and leaves a world.\<close>

type_synonym 'a io = "world \<Rightarrow> (error + 'a) \<times> world"

definition ok :: "'a \<Rightarrow> 'a io" where
  "ok x w = (Inr x, w)"

definition throw :: "error \<Rightarrow> 'a io" where
  "throw e w = (Inl e, w)"

definition io_bind :: "'a io \<Rightarrow> ('a \<Rightarrow> 'b io) \<Rightarrow> 'b io" where
  "io_bind m f w = (case m w of (Inl e, w') \<Rightarrow> (Inl e, w') | (Inr x, w') \<Rightarrow> f x w')"

definition io_catch :: "'a io \<Rightarrow> (error \<Rightarrow> 'a io) \<Rightarrow> 'a io" where
  "io_catch m h w = (case m w of (Inl e, w') \<Rightarrow> h e w' | (Inr x, w') \<Rightarrow> (Inr x, w'))"

definition randomUUID :: "string io" where
  "randomUUID w = (Inr (uuid_source w (uuid_count w)), w\<lparr>uuid_count := Suc (uuid_count w)\<rparr>)"

definition nowUnix :: "int io" where
  "nowUnix w = (Inr (clock w (clock_reads w)), w\<lparr>clock_reads := Suc (clock_reads w)\<rparr>)"

definition newMsgId :: "string io" where
  "newMsgId = io_bind randomUUID (\<lambda>u. ok (''msg_'' @ u))"


section \<open>Paths (node:path on POSIX)\<close>

text \<open>
  \<open>path.join\<close> belongs to the platform, not to the repository.  It is modelled by
  what it computes on POSIX: the arguments that are not empty are joined with \<open>/\<close>
  and the result is normalised.  Normalisation works on the segments between
  slashes: empty segments and \<open>.\<close> are dropped, \<open>..\<close> removes the segment before
  it, and where there is none (or it is \<open>..\<close> itself) it is kept in a relative path
  and dropped in an absolute one.  A trailing slash is kept.
\<close>

text \<open>\<open>split_from seg path\<close>: the segments of \<open>path\<close>, the first one continuing
  \<open>seg\<close>.\<close>

fun split_from :: "string \<Rightarrow> string \<Rightarrow> string list" where
  "split_from seg [] = [seg]"
| "split_from seg (c # cs) =
     (if c = CHR ''/'' then seg # split_from [] cs else split_from (seg @ [c]) cs)"

definition split_path :: "string \<Rightarrow> string list" where
  "split_path path = split_from [] path"

fun join_segments :: "string list \<Rightarrow> string" where
  "join_segments [] = []"
| "join_segments [s] = s"
| "join_segments (s # t # ss) = s @ CHR ''/'' # join_segments (t # ss)"

fun normalize_segments :: "bool \<Rightarrow> string list \<Rightarrow> string list \<Rightarrow> string list" where
  "normalize_segments allowAboveRoot res [] = res"
| "normalize_segments allowAboveRoot res (s # ss) =
     (if s = [] \<or> s = ''.'' then normalize_segments allowAboveRoot res ss
      else if s = ''..'' then
        (if res \<noteq> [] \<and> last res \<noteq> ''..''
         then normalize_segments allowAboveRoot (butlast res) ss
         else if allowAboveRoot
         then normalize_segments allowAboveRoot (res @ [''..'']) ss
         else normalize_segments allowAboveRoot res ss)
      else normalize_segments allowAboveRoot (res @ [s]) ss)"

definition normalizeString :: "string \<Rightarrow> bool \<Rightarrow> string" where
  "normalizeString path allowAboveRoot =
     join_segments (normalize_segments allowAboveRoot [] (split_path path))"

definition normalize :: "string \<Rightarrow> string" where
  "normalize path =
     (if path = [] then ''.''
      else
        let isAbsolute = (hd path = CHR ''/'');
            trailingSeparator = (last path = CHR ''/'');
            p = normalizeString path (\<not> isAbsolute)
        in if p = [] then (if isAbsolute then ''/'' else if trailingSeparator then ''./'' else ''.'')
           else (if isAbsolute then ''/'' else []) @ p @ (if trailingSeparator then ''/'' else []))"

definition path_join :: "string \<Rightarrow> string \<Rightarrow> string" where
  "path_join a b =
     (if a = [] \<and> b = [] then ''.''
      else if a = [] then normalize b
      else if b = [] then normalize a
      else normalize (a @ ''/'' @ b))"


section \<open>The file store (FileAgentStore.ts)\<close>

record file_agent_store =
  dataDir :: string
  threadsDir :: string
  runsDir :: string

definition FileAgentStore :: "string \<Rightarrow> file_agent_store" where
  "FileAgentStore dir =
     \<lparr>dataDir = dir, threadsDir = path_join dir ''threads'', runsDir = path_join dir ''runs''\<rparr>"

definition safePath :: "string \<Rightarrow> string \<Rightarrow> error + string" where
  "safePath baseDir ident =
     (if ident = [] then Inl (Error ''Invalid id: id must not be empty'')
      else
        let filePath = path_join baseDir (ident @ ''.json'')
        in if \<not> prefix (baseDir @ ''/'') filePath
           then Inl (Error (''Invalid id: '' @ ident))
           else Inr filePath)"

definition io_of :: "error + 'a \<Rightarrow> 'a io" where
  "io_of r w = (r, w)"

text \<open>\<open>writeFile\<close>: write a sibling temporary file, then rename it over the target.\<close>

definition writeThreadFile :: "string \<Rightarrow> thread_record \<Rightarrow> unit io" where
  "writeThreadFile filePath data =
     io_bind randomUUID (\<lambda>u w.
       let tmpPath = filePath @ ''.'' @ u @ ''.tmp'';
           written = (thread_files w)(tmpPath \<mapsto> data);
           renamed = (written(filePath := written tmpPath))(tmpPath := None)
       in (Inr (), w\<lparr>thread_files := renamed\<rparr>))"

definition writeRunFile :: "string \<Rightarrow> run_record \<Rightarrow> unit io" where
  "writeRunFile filePath data =
     io_bind randomUUID (\<lambda>u w.
       let tmpPath = filePath @ ''.'' @ u @ ''.tmp'';
           written = (run_files w)(tmpPath \<mapsto> data);
           renamed = (written(filePath := written tmpPath))(tmpPath := None)
       in (Inr (), w\<lparr>run_files := renamed\<rparr>))"

text \<open>\<open>readFile\<close>: \<open>null\<close> (here \<open>None\<close>) when the file does not exist.\<close>

definition readThreadFile :: "string \<Rightarrow> thread_record option io" where
  "readThreadFile filePath w = (Inr (thread_files w filePath), w)"

definition readRunFile :: "string \<Rightarrow> run_record option io" where
  "readRunFile filePath w = (Inr (run_files w filePath), w)"

definition createThread :: "file_agent_store \<Rightarrow> metadata option \<Rightarrow> thread_record io" where
  "createThread store md =
     io_bind randomUUID (\<lambda>u.
     let threadId = ''thread_'' @ u in
     io_bind nowUnix (\<lambda>now.
     let record = \<lparr>t_id = threadId, t_object = ''thread'', t_messages = [],
                   t_metadata = (case md of Some m \<Rightarrow> m | None \<Rightarrow> []),
                   t_created_at = now\<rparr> in
     io_bind (io_of (safePath (threadsDir store) threadId)) (\<lambda>filePath.
     io_bind (writeThreadFile filePath record) (\<lambda>_.
     ok record))))"

definition getThread :: "file_agent_store \<Rightarrow> string \<Rightarrow> thread_record io" where
  "getThread store threadId =
     io_bind (io_of (safePath (threadsDir store) threadId)) (\<lambda>filePath.
     io_bind (readThreadFile filePath) (\<lambda>data.
     case data of
       None \<Rightarrow> throw (Error (''Thread '' @ threadId @ '' not found''))
     | Some thread \<Rightarrow> ok thread))"

definition appendMessages :: "file_agent_store \<Rightarrow> string \<Rightarrow> message_object list \<Rightarrow> unit io" where
  "appendMessages store threadId messages =
     io_bind (getThread store threadId) (\<lambda>thread.
     let thread' = thread\<lparr>t_messages := t_messages thread @ messages\<rparr> in
     io_bind (io_of (safePath (threadsDir store) threadId)) (\<lambda>filePath.
     writeThreadFile filePath thread'))"

definition createRun ::
  "file_agent_store \<Rightarrow> input_message list \<Rightarrow> string option \<Rightarrow> agent_run_config option \<Rightarrow>
   metadata option \<Rightarrow> run_record io" where
  "createRun store inp threadId cfg md =
     io_bind randomUUID (\<lambda>u.
     let runId = ''run_'' @ u in
     io_bind nowUnix (\<lambda>now.
     let record = \<lparr>r_id = runId, r_object = ''thread.run'', r_thread_id = threadId,
                   r_status = Queued, r_input = inp, r_output = None, r_last_error = None,
                   r_usage = None, r_config = cfg, r_metadata = md, r_created_at = now,
                   r_started_at = None, r_completed_at = None, r_cancelled_at = None,
                   r_failed_at = None\<rparr> in
     io_bind (io_of (safePath (runsDir store) runId)) (\<lambda>filePath.
     io_bind (writeRunFile filePath record) (\<lambda>_.
     ok record))))"

definition getRun :: "file_agent_store \<Rightarrow> string \<Rightarrow> run_record io" where
  "getRun store runId =
     io_bind (io_of (safePath (runsDir store) runId)) (\<lambda>filePath.
     io_bind (readRunFile filePath) (\<lambda>data.
     case data of
       None \<Rightarrow> throw (Error (''Run '' @ runId @ '' not found''))
     | Some run \<Rightarrow> ok run))"

text \<open>
  A \<open>Partial<RunRecord>\<close>: for every key of \<open>RunRecord\<close>, \<open>None\<close> when the partial
  does not have the key and \<open>Some v\<close> when it has it with value \<open>v\<close>.  For an
  optional field \<open>v\<close> is itself an option: \<open>Some None\<close> is a key that is present
  with the value \<open>undefined\<close>, which \<open>Object.assign\<close> copies and \<open>JSON.stringify\<close>
  then leaves out of the file.
\<close>

record run_updates =
  up_id :: "string option"
  up_object :: "string option"
  up_thread_id :: "string option option"
  up_status :: "run_status option"
  up_input :: "input_message list option"
  up_output :: "message_object list option option"
  up_last_error :: "run_error option option"
  up_usage :: "run_usage option option"
  up_config :: "agent_run_config option option"
  up_metadata :: "metadata option option"
  up_created_at :: "int option"
  up_started_at :: "int option option"
  up_completed_at :: "int option option"
  up_cancelled_at :: "int option option"
  up_failed_at :: "int option option"

definition no_updates :: run_updates where
  "no_updates =
     \<lparr>up_id = None, up_object = None, up_thread_id = None, up_status = None,
      up_input = None, up_output = None, up_last_error = None, up_usage = None,
      up_config = None, up_metadata = None, up_created_at = None, up_started_at = None,
      up_completed_at = None, up_cancelled_at = None, up_failed_at = None\<rparr>"

definition assign :: "'a \<Rightarrow> 'a option \<Rightarrow> 'a" where
  "assign old new = (case new of None \<Rightarrow> old | Some v \<Rightarrow> v)"

definition object_assign :: "run_record \<Rightarrow> run_updates \<Rightarrow> run_record" where
  "object_assign run updates =
     \<lparr>r_id = assign (r_id run) (up_id updates),
      r_object = assign (r_object run) (up_object updates),
      r_thread_id = assign (r_thread_id run) (up_thread_id updates),
      r_status = assign (r_status run) (up_status updates),
      r_input = assign (r_input run) (up_input updates),
      r_output = assign (r_output run) (up_output updates),
      r_last_error = assign (r_last_error run) (up_last_error updates),
      r_usage = assign (r_usage run) (up_usage updates),
      r_config = assign (r_config run) (up_config updates),
      r_metadata = assign (r_metadata run) (up_metadata updates),
      r_created_at = assign (r_created_at run) (up_created_at updates),
      r_started_at = assign (r_started_at run) (up_started_at updates),
      r_completed_at = assign (r_completed_at run) (up_completed_at updates),
      r_cancelled_at = assign (r_cancelled_at run) (up_cancelled_at updates),
      r_failed_at = assign (r_failed_at run) (up_failed_at updates)\<rparr>"

definition updateRun :: "file_agent_store \<Rightarrow> string \<Rightarrow> run_updates \<Rightarrow> unit io" where
  "updateRun store runId updates =
     io_bind (getRun store runId) (\<lambda>run.
     let run' = object_assign run updates in
     io_bind (io_of (safePath (runsDir store) runId)) (\<lambda>filePath.
     writeRunFile filePath run'))"


section \<open>Stream adapter (agentDefaults.ts)\<close>

fun toContentBlocks :: "stream_message option \<Rightarrow> content_block list" where
  "toContentBlocks None = []"
| "toContentBlocks (Some msg) =
     (case sm_content msg of
        StreamString content \<Rightarrow> [\<lparr>cb_value = content, cb_annotations = []\<rparr>]
      | StreamParts content \<Rightarrow>
          map (\<lambda>part. \<lparr>cb_value = snd part, cb_annotations = []\<rparr>)
            (filter (\<lambda>part. fst part = ''text'') content))"

definition toMessageObject :: "stream_message option \<Rightarrow> string option \<Rightarrow> message_object io" where
  "toMessageObject msg runId =
     io_bind newMsgId (\<lambda>mid.
     io_bind nowUnix (\<lambda>now.
     ok \<lparr>m_id = mid, m_object = ''thread.message'', m_created_at = now,
         m_thread_id = None, m_run_id = runId, m_role = Assistant,
         m_status = MsgCompleted, m_content = toContentBlocks msg,
         m_metadata = None\<rparr>))"

record extracted =
  ex_output :: "message_object list"
  ex_usage :: "run_usage option"

text \<open>The loop of \<open>extractFromStreamMessages\<close>; the accumulator is
  \<open>(output, promptTokens, completionTokens, hasUsage)\<close>.\<close>

fun extract_loop ::
  "agent_stream_message list \<Rightarrow> string option \<Rightarrow>
   message_object list \<times> int \<times> int \<times> bool \<Rightarrow>
   (message_object list \<times> int \<times> int \<times> bool) io" where
  "extract_loop [] runId acc = ok acc"
| "extract_loop (msg # rest) runId (output, promptTokens, completionTokens, hasUsage) =
     io_bind
       (case message msg of
          Some m \<Rightarrow> io_bind (toMessageObject (Some m) runId) (\<lambda>obj. ok (output @ [obj]))
        | None \<Rightarrow> ok output)
       (\<lambda>output'.
          extract_loop rest runId
            (case usage msg of
               Some u \<Rightarrow>
                 (output',
                  promptTokens + (case prompt_tokens u of Some n \<Rightarrow> n | None \<Rightarrow> 0),
                  completionTokens + (case completion_tokens u of Some n \<Rightarrow> n | None \<Rightarrow> 0),
                  True)
             | None \<Rightarrow> (output', promptTokens, completionTokens, hasUsage)))"

definition extractFromStreamMessages ::
  "agent_stream_message list \<Rightarrow> string option \<Rightarrow> extracted io" where
  "extractFromStreamMessages messages runId =
     io_bind (extract_loop messages runId ([], 0, 0, False))
       (\<lambda>(output, promptTokens, completionTokens, hasUsage).
          ok \<lparr>ex_output = output,
              ex_usage =
                (if hasUsage
                 then Some \<lparr>u_prompt_tokens = promptTokens,
                            u_completion_tokens = completionTokens,
                            u_total_tokens = promptTokens + completionTokens\<rparr>
                 else None)\<rparr>)"


section \<open>Default handlers (agentDefaults.ts)\<close>

text \<open>
  \<open>execRun\<close> is the user's generator.  A run of it that ends is the list of chunks
  it yields and the error it throws at the end, if any.
\<close>

type_synonym generator = "agent_stream_message list \<times> error option"

text \<open>The map of \<open>toInputMessageObjects\<close> over the messages that pass the filter.\<close>

fun toInputMessageObjects :: "input_message list \<Rightarrow> string option \<Rightarrow> message_object list io" where
  "toInputMessageObjects [] threadId = ok []"
| "toInputMessageObjects (m # ms) threadId =
     (if im_role m \<noteq> System
      then
        io_bind newMsgId (\<lambda>mid.
        io_bind nowUnix (\<lambda>now.
        io_bind (toInputMessageObjects ms threadId) (\<lambda>rest.
        ok (\<lparr>m_id = mid, m_object = ''thread.message'', m_created_at = now,
             m_thread_id = threadId, m_run_id = None, m_role = im_role m,
             m_status = MsgCompleted,
             m_content =
               (case im_content m of
                  InputString content \<Rightarrow> [\<lparr>cb_value = content, cb_annotations = []\<rparr>]
                | InputParts content \<Rightarrow>
                    map (\<lambda>p. \<lparr>cb_value = p, cb_annotations = []\<rparr>) content),
             m_metadata = None\<rparr> # rest))))
      else toInputMessageObjects ms threadId)"

definition defaultCreateThread :: "file_agent_store \<Rightarrow> thread_object io" where
  "defaultCreateThread store =
     io_bind (createThread store None) (\<lambda>thread.
     ok \<lparr>to_id = t_id thread, to_object = ''thread'', to_created_at = t_created_at thread,
         to_metadata = t_metadata thread\<rparr>)"

definition defaultGetThread :: "file_agent_store \<Rightarrow> string \<Rightarrow> thread_object_with_messages io" where
  "defaultGetThread store threadId =
     io_bind (getThread store threadId) (\<lambda>thread.
     ok \<lparr>to_id = t_id thread, to_object = ''thread'', to_created_at = t_created_at thread,
         to_metadata = t_metadata thread, to_messages = t_messages thread\<rparr>)"

text \<open>The first lines of the three run handlers: \<open>input.thread_id\<close>, or the id of a
  new thread when it is absent or empty (\<open>!threadId\<close>).\<close>

definition resolveThreadId :: "file_agent_store \<Rightarrow> create_run_input \<Rightarrow> string io" where
  "resolveThreadId store inp =
     (case thread_id inp of
        Some threadId \<Rightarrow>
          if threadId \<noteq> [] then ok threadId
          else io_bind (createThread store None) (\<lambda>thread. ok (t_id thread))
      | None \<Rightarrow> io_bind (createThread store None) (\<lambda>thread. ok (t_id thread)))"

definition drain :: "generator \<Rightarrow> agent_stream_message list io" where
  "drain gen = (case snd gen of None \<Rightarrow> ok (fst gen) | Some err \<Rightarrow> throw err)"

definition exec_error :: "error \<Rightarrow> run_error" where
  "exec_error err = \<lparr>code = ''EXEC_ERROR'', err_message = error_message err\<rparr>"

definition defaultSyncRun ::
  "file_agent_store \<Rightarrow> (create_run_input \<Rightarrow> generator) \<Rightarrow> create_run_input \<Rightarrow> run_object io" where
  "defaultSyncRun store execRun inp =
     io_bind (resolveThreadId store inp) (\<lambda>threadId.
     io_bind (createRun store (input_messages inp) (Some threadId) (config inp) (metadata inp)) (\<lambda>run.
     io_catch
       (io_bind nowUnix (\<lambda>startedAt.
        io_bind (updateRun store (r_id run)
                  (no_updates\<lparr>up_status := Some InProgress,
                              up_started_at := Some (Some startedAt)\<rparr>)) (\<lambda>_.
        io_bind (drain (execRun inp)) (\<lambda>streamMessages.
        io_bind (extractFromStreamMessages streamMessages (Some (r_id run))) (\<lambda>ex.
        io_bind nowUnix (\<lambda>completedAt.
        io_bind (updateRun store (r_id run)
                  (no_updates\<lparr>up_status := Some Completed,
                              up_output := Some (Some (ex_output ex)),
                              up_usage := Some (ex_usage ex),
                              up_completed_at := Some (Some completedAt)\<rparr>)) (\<lambda>_.
        io_bind (toInputMessageObjects (input_messages inp) (Some threadId)) (\<lambda>inputObjects.
        io_bind (appendMessages store threadId (inputObjects @ ex_output ex)) (\<lambda>_.
        ok \<lparr>ro_id = r_id run, ro_object = ''thread.run'', ro_created_at = r_created_at run,
            ro_thread_id = Some threadId, ro_status = Completed, ro_last_error = None,
            ro_started_at = Some startedAt, ro_completed_at = Some completedAt,
            ro_cancelled_at = None, ro_failed_at = None, ro_usage = ex_usage ex,
            ro_metadata = r_metadata run, ro_output = Some (ex_output ex),
            ro_config = None\<rparr>)))))))))
       (\<lambda>err.
        io_bind nowUnix (\<lambda>failedAt.
        io_bind (updateRun store (r_id run)
                  (no_updates\<lparr>up_status := Some Failed,
                              up_last_error := Some (Some (exec_error err)),
                              up_failed_at := Some (Some failedAt)\<rparr>)) (\<lambda>_.
        throw err)))))"

text \<open>
  The moment the abort signal fires, as the loop over the generator sees it:
  after a number of chunks have been taken from the generator, or after the loop and
  the check that follows it, or never.
\<close>

datatype abort_time = NotAborted | AbortedAfter nat | AbortedLate

text \<open>\<open>signal.aborted\<close> when \<open>i\<close> chunks have been taken.\<close>

fun aborted_at :: "abort_time \<Rightarrow> nat \<Rightarrow> bool" where
  "aborted_at (AbortedAfter k) i = (k \<le> i)"
| "aborted_at NotAborted i = False"
| "aborted_at AbortedLate i = False"

text \<open>The loop of the background task: \<open>if (aborted) break; streamMessages.push(msg)\<close>.\<close>

fun async_drain ::
  "abort_time \<Rightarrow> agent_stream_message list \<Rightarrow> error option \<Rightarrow> agent_stream_message list \<Rightarrow>
   agent_stream_message list io" where
  "async_drain ab [] err streamMessages =
     (case err of None \<Rightarrow> ok streamMessages | Some e \<Rightarrow> throw e)"
| "async_drain ab (msg # rest) err streamMessages =
     (if aborted_at ab (length streamMessages) then ok streamMessages
      else async_drain ab rest err (streamMessages @ [msg]))"

text \<open>The \<open>catch\<close> clause of the background task, entered with the value that
  \<open>signal.aborted\<close> has at that moment.\<close>

definition async_catch :: "file_agent_store \<Rightarrow> string \<Rightarrow> bool \<Rightarrow> error \<Rightarrow> unit io" where
  "async_catch store runId aborted err =
     (if \<not> aborted
      then io_catch
             (io_bind nowUnix (\<lambda>failedAt.
              updateRun store runId
                (no_updates\<lparr>up_status := Some Failed,
                            up_last_error := Some (Some (exec_error err)),
                            up_failed_at := Some (Some failedAt)\<rparr>)))
             (\<lambda>_. ok ())
      else ok ())"

text \<open>A step of the \<open>try\<close> block: an error raised in it goes to the \<open>catch\<close> clause.\<close>

definition guarded :: "(error \<Rightarrow> unit io) \<Rightarrow> 'a io \<Rightarrow> ('a \<Rightarrow> unit io) \<Rightarrow> unit io" where
  "guarded handler m f w =
     (case m w of (Inl e, w') \<Rightarrow> handler e w' | (Inr x, w') \<Rightarrow> f x w')"

definition delete_task :: "string \<Rightarrow> unit io" where
  "delete_task runId w = (Inr (), w\<lparr>running_tasks := (running_tasks w)(runId := None)\<rparr>)"

definition set_task :: "string \<Rightarrow> task \<Rightarrow> unit io" where
  "set_task runId t w = (Inr (), w\<lparr>running_tasks := (running_tasks w)(runId \<mapsto> t)\<rparr>)"

text \<open>
  The background closure of \<open>asyncRun\<close>, run from its start until its promise
  settles.  The promise never rejects: the \<open>catch\<close> clause swallows every error.
\<close>

definition background_task ::
  "file_agent_store \<Rightarrow> (create_run_input \<Rightarrow> generator) \<Rightarrow> abort_time \<Rightarrow> task \<Rightarrow> unit io" where
  "background_task store execRun ab t =
     (let run = task_run t; threadId = task_thread_id t; inp = task_input t;
          gen = execRun inp
      in
      io_bind
        (guarded (async_catch store (r_id run) (aborted_at ab 0))
           (io_bind nowUnix (\<lambda>startedAt.
            updateRun store (r_id run)
              (no_updates\<lparr>up_status := Some InProgress,
                          up_started_at := Some (Some startedAt)\<rparr>))) (\<lambda>_.
         guarded (async_catch store (r_id run) (aborted_at ab (length (fst gen))))
           (async_drain ab (fst gen) (snd gen) []) (\<lambda>streamMessages.
         if aborted_at ab (length streamMessages) then ok ()
         else
           guarded (async_catch store (r_id run) (ab = AbortedLate))
             (io_bind (extractFromStreamMessages streamMessages (Some (r_id run))) (\<lambda>ex.
              io_bind nowUnix (\<lambda>completedAt.
              io_bind (updateRun store (r_id run)
                        (no_updates\<lparr>up_status := Some Completed,
                                    up_output := Some (Some (ex_output ex)),
                                    up_usage := Some (ex_usage ex),
                                    up_completed_at := Some (Some completedAt)\<rparr>)) (\<lambda>_.
              io_bind (toInputMessageObjects (input_messages inp) (Some threadId)) (\<lambda>inputObjects.
              appendMessages store threadId (inputObjects @ ex_output ex))))))
             ok)))
        (\<lambda>_. delete_task (r_id run)))"

definition defaultAsyncRun :: "file_agent_store \<Rightarrow> create_run_input \<Rightarrow> run_object io" where
  "defaultAsyncRun store inp =
     io_bind (resolveThreadId store inp) (\<lambda>threadId.
     io_bind (createRun store (input_messages inp) (Some threadId) (config inp) (metadata inp)) (\<lambda>run.
     io_bind (set_task (r_id run) \<lparr>task_run = run, task_thread_id = threadId, task_input = inp\<rparr>) (\<lambda>_.
     ok \<lparr>ro_id = r_id run, ro_object = ''thread.run'', ro_created_at = r_created_at run,
         ro_thread_id = Some threadId, ro_status = Queued, ro_last_error = None,
         ro_started_at = None, ro_completed_at = None, ro_cancelled_at = None,
         ro_failed_at = None, ro_usage = None, ro_metadata = r_metadata run,
         ro_output = None, ro_config = None\<rparr>)))"

text \<open>A background task that nobody cancels runs to its end.\<close>

definition settle_task ::
  "file_agent_store \<Rightarrow> (create_run_input \<Rightarrow> generator) \<Rightarrow> string \<Rightarrow> unit io" where
  "settle_task store execRun runId w =
     (case running_tasks w runId of
        None \<Rightarrow> (Inr (), w)
      | Some t \<Rightarrow> background_task store execRun NotAborted t w)"

text \<open>Writes to the raw response \<open>ctx.res\<close>.\<close>

definition res_writeHead :: "nat \<Rightarrow> (string \<times> string) list \<Rightarrow> unit io" where
  "res_writeHead status headers w = (Inr (), w\<lparr>res_head := Some (status, headers)\<rparr>)"

definition res_write :: "string \<Rightarrow> sse_payload \<Rightarrow> unit io" where
  "res_write ev d w =
     (Inr (), w\<lparr>res_body := res_body w @ [\<lparr>event_name = ev, payload = d\<rparr>]\<rparr>)"

definition res_end :: "unit io" where
  "res_end w = (Inr (), w\<lparr>res_ended := True\<rparr>)"

text \<open>\<open>try { body } finally { cleanup }\<close>: the cleanup runs on both exits and the
  outcome of the body stands.\<close>

definition io_finally :: "'a io \<Rightarrow> unit io \<Rightarrow> 'a io" where
  "io_finally body cleanup w =
     (case body w of
        (r, w') \<Rightarrow> (case cleanup w' of (Inl e, w'') \<Rightarrow> (Inl e, w'') | (Inr _, w'') \<Rightarrow> (r, w'')))"

text \<open>
  The loop of \<open>streamRun\<close> over the generator; the state of the loop is
  \<open>(accumulatedContent, promptTokens, completionTokens, hasUsage)\<close> and \<open>i\<close> counts
  the chunks taken so far.
\<close>

fun stream_loop ::
  "abort_time \<Rightarrow> nat \<Rightarrow> agent_stream_message list \<Rightarrow> error option \<Rightarrow> string \<Rightarrow>
   content_block list \<times> int \<times> int \<times> bool \<Rightarrow>
   (content_block list \<times> int \<times> int \<times> bool) io" where
  "stream_loop ab i [] err msgId st = (case err of None \<Rightarrow> ok st | Some e \<Rightarrow> throw e)"
| "stream_loop ab i (msg # rest) err msgId
     (accumulatedContent, promptTokens, completionTokens, hasUsage) =
     (if aborted_at ab i
      then ok (accumulatedContent, promptTokens, completionTokens, hasUsage)
      else
        io_bind
          (case message msg of
             Some m \<Rightarrow>
               (let contentBlocks = toContentBlocks (Some m) in
                io_bind
                  (res_write ''thread.message.delta''
                     (DeltaData \<lparr>d_id = msgId, d_object = ''thread.message.delta'',
                                 d_content = contentBlocks\<rparr>))
                  (\<lambda>_. ok (accumulatedContent @ contentBlocks)))
           | None \<Rightarrow> ok accumulatedContent)
          (\<lambda>accumulatedContent'.
             stream_loop ab (Suc i) rest err msgId
               (case usage msg of
                  Some u \<Rightarrow>
                    (accumulatedContent',
                     promptTokens + (case prompt_tokens u of Some n \<Rightarrow> n | None \<Rightarrow> 0),
                     completionTokens + (case completion_tokens u of Some n \<Rightarrow> n | None \<Rightarrow> 0),
                     True)
                | None \<Rightarrow> (accumulatedContent', promptTokens, completionTokens, hasUsage))))"

text \<open>The \<open>try\<close> block of \<open>streamRun\<close>; \<open>runObj\<close>, \<open>msgObj\<close> and \<open>msgId\<close> are the
  values these variables have when the block is entered.\<close>

definition stream_try ::
  "file_agent_store \<Rightarrow> generator \<Rightarrow> abort_time \<Rightarrow> create_run_input \<Rightarrow> string \<Rightarrow> run_record \<Rightarrow>
   run_object \<Rightarrow> message_object \<Rightarrow> string \<Rightarrow> unit io" where
  "stream_try store gen ab inp threadId run runObj msgObj msgId =
     io_bind (stream_loop ab 0 (fst gen) (snd gen) msgId ([], 0, 0, False))
       (\<lambda>(accumulatedContent, promptTokens, completionTokens, hasUsage).
     let msgObj = msgObj\<lparr>m_status := MsgCompleted, m_content := accumulatedContent\<rparr> in
     io_bind (res_write ''thread.message.completed'' (MessageData msgObj)) (\<lambda>_.
     let output = (if accumulatedContent \<noteq> [] then [msgObj] else []);
         usage_total =
           (if hasUsage
            then Some \<lparr>u_prompt_tokens = promptTokens,
                       u_completion_tokens = completionTokens,
                       u_total_tokens = promptTokens + completionTokens\<rparr>
            else None) in
     io_bind nowUnix (\<lambda>completedAt.
     io_bind (updateRun store (r_id run)
               (no_updates\<lparr>up_status := Some Completed,
                           up_output := Some (Some output),
                           up_usage := Some usage_total,
                           up_completed_at := Some (Some completedAt)\<rparr>)) (\<lambda>_.
     io_bind (toInputMessageObjects (input_messages inp) (Some threadId)) (\<lambda>inputObjects.
     io_bind (appendMessages store threadId (inputObjects @ output)) (\<lambda>_.
     io_bind nowUnix (\<lambda>completedAt'.
     res_write ''thread.run.completed''
       (RunData (runObj\<lparr>ro_status := Completed,
                         ro_completed_at := Some completedAt',
                         ro_usage := usage_total,
                         ro_output := Some output\<rparr>)))))))))"

text \<open>The \<open>catch\<close> clause of \<open>streamRun\<close>: a failure of the store is ignored, the frame
  \<open>thread.run.failed\<close> is written.\<close>

definition stream_catch :: "file_agent_store \<Rightarrow> run_record \<Rightarrow> run_object \<Rightarrow> error \<Rightarrow> unit io" where
  "stream_catch store run runObj err =
     io_bind nowUnix (\<lambda>failedAt.
     io_bind (io_catch
                (updateRun store (r_id run)
                   (no_updates\<lparr>up_status := Some Failed,
                               up_last_error := Some (Some (exec_error err)),
                               up_failed_at := Some (Some failedAt)\<rparr>))
                (\<lambda>_. ok ())) (\<lambda>_.
     res_write ''thread.run.failed''
       (RunData (runObj\<lparr>ro_status := Failed, ro_failed_at := Some failedAt,
                         ro_last_error := Some (exec_error err)\<rparr>))))"

text \<open>The \<open>finally\<close> clause of \<open>streamRun\<close>.\<close>

definition stream_finally :: "unit io" where
  "stream_finally = io_bind (res_write ''done'' DoneData) (\<lambda>_. res_end)"

definition sse_headers :: "(string \<times> string) list" where
  "sse_headers =
     [(''Content-Type'', ''text/event-stream''), (''Cache-Control'', ''no-cache''),
      (''Connection'', ''keep-alive'')]"

text \<open>
  \<open>has_context\<close> says whether \<open>ContextHandler.getContext()\<close> returns a context;
  \<open>ab\<close> is the moment the client disconnects (the \<open>close\<close> listener aborts the
  signal, which the loop checks; nothing after the loop reads it).
\<close>

definition defaultStreamRun ::
  "file_agent_store \<Rightarrow> (create_run_input \<Rightarrow> generator) \<Rightarrow> abort_time \<Rightarrow> bool \<Rightarrow>
   create_run_input \<Rightarrow> unit io" where
  "defaultStreamRun store execRun ab has_context inp =
     (if \<not> has_context then throw (Error ''streamRun must be called within a request context'')
      else
        io_bind (res_writeHead 200 sse_headers) (\<lambda>_.
        io_bind (resolveThreadId store inp) (\<lambda>threadId.
        io_bind (createRun store (input_messages inp) (Some threadId) (config inp) (metadata inp)) (\<lambda>run.
        let runObj = \<lparr>ro_id = r_id run, ro_object = ''thread.run'',
                      ro_created_at = r_created_at run, ro_thread_id = Some threadId,
                      ro_status = Queued, ro_last_error = None, ro_started_at = None,
                      ro_completed_at = None, ro_cancelled_at = None, ro_failed_at = None,
                      ro_usage = None, ro_metadata = r_metadata run, ro_output = None,
                      ro_config = None\<rparr> in
        io_bind (res_write ''thread.run.created'' (RunData runObj)) (\<lambda>_.
        io_bind nowUnix (\<lambda>startedAt.
        let runObj = runObj\<lparr>ro_status := InProgress, ro_started_at := Some startedAt\<rparr> in
        io_bind (updateRun store (r_id run)
                  (no_updates\<lparr>up_status := Some InProgress,
                              up_started_at := Some (Some startedAt)\<rparr>)) (\<lambda>_.
        io_bind (res_write ''thread.run.in_progress'' (RunData runObj)) (\<lambda>_.
        io_bind newMsgId (\<lambda>msgId.
        io_bind nowUnix (\<lambda>createdAt.
        let msgObj = \<lparr>m_id = msgId, m_object = ''thread.message'', m_created_at = createdAt,
                      m_thread_id = None, m_run_id = Some (r_id run), m_role = Assistant,
                      m_status = MsgInProgress, m_content = [], m_metadata = None\<rparr> in
        io_bind (res_write ''thread.message.created'' (MessageData msgObj)) (\<lambda>_.
        io_finally
          (io_catch (stream_try store (execRun inp) ab inp threadId run runObj msgObj msgId)
             (stream_catch store run runObj))
          stream_finally)))))))))))"


definition TERMINAL_RUN_STATUSES :: "run_status set" where
  "TERMINAL_RUN_STATUSES = {Completed, Failed, Cancelled, Expired}"

text \<open>The first lines of \<open>cancelRun\<close>: abort the task of the run, if it is in flight, and
  wait until it has settled (\<open>ab\<close> is the moment at which the task sees the abort).\<close>

definition abort_and_await ::
  "file_agent_store \<Rightarrow> (create_run_input \<Rightarrow> generator) \<Rightarrow> abort_time \<Rightarrow> string \<Rightarrow> unit io" where
  "abort_and_await store execRun ab runId w =
     (case running_tasks w runId of
        None \<Rightarrow> (Inr (), w)
      | Some t \<Rightarrow> io_catch (background_task store execRun ab t) (\<lambda>_. ok ()) w)"

definition defaultCancelRun ::
  "file_agent_store \<Rightarrow> (create_run_input \<Rightarrow> generator) \<Rightarrow> abort_time \<Rightarrow> string \<Rightarrow> run_object io" where
  "defaultCancelRun store execRun ab runId =
     io_bind (abort_and_await store execRun ab runId) (\<lambda>_.
     io_bind (getRun store runId) (\<lambda>run.
     if r_status run \<in> TERMINAL_RUN_STATUSES
     then throw (Error (''Cannot cancel run with status '' @ [CHR 0x27] @ status_name (r_status run)
                          @ [CHR 0x27]))
     else
       io_bind nowUnix (\<lambda>cancelledAt.
       io_bind (updateRun store runId
                 (no_updates\<lparr>up_status := Some Cancelled,
                             up_cancelled_at := Some (Some cancelledAt)\<rparr>)) (\<lambda>_.
       ok \<lparr>ro_id = r_id run, ro_object = ''thread.run'', ro_created_at = r_created_at run,
           ro_thread_id = r_thread_id run, ro_status = Cancelled, ro_last_error = None,
           ro_started_at = None, ro_completed_at = None, ro_cancelled_at = Some cancelledAt,
           ro_failed_at = None, ro_usage = None, ro_metadata = None, ro_output = None,
           ro_config = None\<rparr>))))"


section \<open>Notions used in the statements\<close>

text \<open>The token counts a chunk reports, an absent count (or an absent \<open>usage\<close>) being 0,
  and the \<open>message\<close> fields that are present, in the order of the chunks.\<close>

definition usage_prompt :: "agent_stream_message \<Rightarrow> int" where
  "usage_prompt c = (case usage c of None \<Rightarrow> 0 | Some u \<Rightarrow> (case prompt_tokens u of None \<Rightarrow> 0 | Some n \<Rightarrow> n))"

definition usage_completion :: "agent_stream_message \<Rightarrow> int" where
  "usage_completion c = (case usage c of None \<Rightarrow> 0 | Some u \<Rightarrow> (case completion_tokens u of None \<Rightarrow> 0 | Some n \<Rightarrow> n))"

definition present_messages :: "agent_stream_message list \<Rightarrow> stream_message list" where
  "present_messages messages = concat (map (\<lambda>c. case message c of None \<Rightarrow> [] | Some m \<Rightarrow> [m]) messages)"

text \<open>The message that the adapter builds for the \<open>i\<close>-th present \<open>message\<close> field when
  it starts in the world \<open>w\<close>: its id is the \<open>i\<close>-th UUID drawn from there.\<close>

definition collected_message :: "world \<Rightarrow> string option \<Rightarrow> nat \<times> stream_message \<Rightarrow> message_object" where
  "collected_message w runId im =
     \<lparr>m_id = ''msg_'' @ uuid_source w (uuid_count w + fst im), m_object = ''thread.message'',
      m_created_at = clock w (clock_reads w + fst im),
      m_thread_id = None, m_run_id = runId, m_role = Assistant,
      m_status = MsgCompleted, m_content = toContentBlocks (Some (snd im)),
      m_metadata = None\<rparr>"

text \<open>The content blocks of an input message, the message that \<open>toInputMessageObjects\<close>
  builds for the \<open>i\<close>-th input message that is kept when it starts in the world \<open>w\<close>, and
  the input messages that are kept: those whose role is not \<open>system\<close>.\<close>

definition input_content_blocks :: "input_message \<Rightarrow> content_block list" where
  "input_content_blocks m =
     (case im_content m of
        InputString content \<Rightarrow> [\<lparr>cb_value = content, cb_annotations = []\<rparr>]
      | InputParts content \<Rightarrow> map (\<lambda>p. \<lparr>cb_value = p, cb_annotations = []\<rparr>) content)"

definition input_object :: "world \<Rightarrow> string option \<Rightarrow> nat \<times> input_message \<Rightarrow> message_object" where
  "input_object w threadId im =
     \<lparr>m_id = ''msg_'' @ uuid_source w (uuid_count w + fst im), m_object = ''thread.message'',
      m_created_at = clock w (clock_reads w + fst im),
      m_thread_id = threadId, m_run_id = None, m_role = im_role (snd im),
      m_status = MsgCompleted, m_content = input_content_blocks (snd im),
      m_metadata = None\<rparr>"

definition history_messages :: "input_message list \<Rightarrow> input_message list" where
  "history_messages messages = filter (\<lambda>m. im_role m \<noteq> System) messages"

text \<open>The frame that \<open>streamRun\<close> writes for a chunk whose \<open>message\<close> field is
  present, and the contents of the delta frames among a list of frames.\<close>

definition delta_frame :: "string \<Rightarrow> stream_message \<Rightarrow> sse_frame" where
  "delta_frame msgId m =
     \<lparr>event_name = ''thread.message.delta'',
      payload = DeltaData \<lparr>d_id = msgId, d_object = ''thread.message.delta'',
                           d_content = toContentBlocks (Some m)\<rparr>\<rparr>"

definition delta_contents :: "sse_frame list \<Rightarrow> content_block list list" where
  "delta_contents frames =
     concat (map (\<lambda>f. case payload f of DeltaData d \<Rightarrow> [d_content d] | _ \<Rightarrow> []) frames)"

text \<open>No thread file holds a message whose role is \<open>system\<close>.\<close>

definition no_system_messages :: "world \<Rightarrow> bool" where
  "no_system_messages w =
     (\<forall>p t. thread_files w p = Some t \<longrightarrow>
        (\<forall>m \<in> set (t_messages t). m_role m = User \<or> m_role m = Assistant))"

text \<open>\<open>io_keeps I m Q\<close>: the computation \<open>m\<close> keeps the invariant \<open>I\<close> of the world,
  whether it returns or throws, and a value it returns satisfies \<open>Q\<close>.\<close>

definition io_keeps :: "(world \<Rightarrow> bool) \<Rightarrow> 'a io \<Rightarrow> ('a \<Rightarrow> bool) \<Rightarrow> bool" where
  "io_keeps I m Q = (\<forall>w. I w \<longrightarrow> I (snd (m w)) \<and> (\<forall>x. fst (m w) = Inr x \<longrightarrow> Q x))"





text \<open>A concrete store and worlds, for the examples.\<close>

definition demo_store :: file_agent_store where
  "demo_store = FileAgentStore ''/data''"

definition demo_world :: world where
  "demo_world =
     \<lparr>thread_files = Map.empty, run_files = Map.empty, running_tasks = Map.empty,
      res_head = None, res_body = [], res_ended = False,
      uuid_source = (\<lambda>n. replicate (Suc n) CHR ''a''), uuid_count = 0,
      clock = (\<lambda>n. 1700000000 + int n), clock_reads = 0\<rparr>"

definition demo_run :: run_record where
  "demo_run =
     \<lparr>r_id = ''run_1'', r_object = ''thread.run'', r_thread_id = Some ''thread_1'',
      r_status = InProgress,
      r_input = [\<lparr>im_role = User, im_content = InputString ''Hi'', im_metadata = None\<rparr>],
      r_output = None, r_last_error = None, r_usage = None, r_config = None,
      r_metadata = Some [(''user_id'', JStr ''u1'')], r_created_at = 1700000000,
      r_started_at = Some 1700000001, r_completed_at = None, r_cancelled_at = None,
      r_failed_at = None\<rparr>"

definition demo_run_world :: world where
  "demo_run_world = demo_world\<lparr>run_files := [''/data/runs/run_1.json'' \<mapsto> demo_run]\<rparr>"


definition demo_completed_world :: world where
  "demo_completed_world =
     demo_world\<lparr>run_files := [''/data/runs/run_1.json'' \<mapsto> demo_run\<lparr>r_status := Completed\<rparr>]\<rparr>"

definition demo_input :: create_run_input where
  "demo_input =
     \<lparr>thread_id = None,
      input_messages =
        [\<lparr>im_role = System, im_content = InputString ''Be brief'', im_metadata = None\<rparr>,
         \<lparr>im_role = User, im_content = InputString ''Hi'', im_metadata = None\<rparr>],
      config = None, metadata = Some [(''user_id'', JStr ''u1'')]\<rparr>"

definition demo_chunks :: "agent_stream_message list" where
  "demo_chunks =
     [\<lparr>sm_type = ''assistant'',
       message = Some \<lparr>sm_role = ''assistant'',
                       sm_content = StreamParts [(''text'', ''Processed 1 messages'')]\<rparr>,
       usage = None\<rparr>,
      \<lparr>sm_type = ''result'', message = None,
       usage = Some \<lparr>total_tokens = None, prompt_tokens = Some 10, completion_tokens = Some 5,
                     duration_ms = None\<rparr>\<rparr>]"

definition demo_exec :: "create_run_input \<Rightarrow> generator" where
  "demo_exec inp = (demo_chunks, None)"

definition demo_exec_fail :: "create_run_input \<Rightarrow> generator" where
  "demo_exec_fail inp = (take 1 demo_chunks, Some (Error ''boom''))"

definition nope_input :: create_run_input where
  "nope_input = demo_input\<lparr>thread_id := Some ''thread_nope''\<rparr>"


section \<open>Basic facts about the store\<close>

lemma io_bind_ok [simp]: "io_bind (ok x) f = f x"
  by (rule ext) (simp add: io_bind_def ok_def)

lemma io_bind_throw [simp]: "io_bind (throw e) f = throw e"
  by (rule ext) (simp add: io_bind_def throw_def)

lemma tmp_neq [simp]: "p @ CHR ''.'' # u \<noteq> p" "p \<noteq> p @ CHR ''.'' # u"
  by simp_all

lemma writeRunFile_run:
  "writeRunFile p d w =
     (Inr (), w\<lparr>uuid_count := Suc (uuid_count w),
               run_files := ((run_files w)(p \<mapsto> d))(p @ ''.'' @ uuid_source w (uuid_count w) @ ''.tmp'' := None)\<rparr>)"
  by (simp add: writeRunFile_def io_bind_def randomUUID_def Let_def fun_upd_twist)

lemma writeThreadFile_run:
  "writeThreadFile p d w =
     (Inr (), w\<lparr>uuid_count := Suc (uuid_count w),
               thread_files := ((thread_files w)(p \<mapsto> d))(p @ ''.'' @ uuid_source w (uuid_count w) @ ''.tmp'' := None)\<rparr>)"
  by (simp add: writeThreadFile_def io_bind_def randomUUID_def Let_def fun_upd_twist)

lemma getRun_found:
  "safePath (runsDir store) runId = Inr p \<Longrightarrow> run_files w p = Some run \<Longrightarrow>
   getRun store runId w = (Inr run, w)"
  by (simp add: getRun_def io_bind_def io_of_def readRunFile_def ok_def)

lemma getRun_Inr:
  "fst (getRun store runId w) = Inr run \<Longrightarrow>
   \<exists>p. safePath (runsDir store) runId = Inr p \<and> run_files w p = Some run"
  by (auto simp add: getRun_def io_bind_def io_of_def readRunFile_def ok_def throw_def
        split: sum.splits option.splits)

lemma getRun_world: "snd (getRun store runId w) = w"
  by (auto simp add: getRun_def io_bind_def io_of_def readRunFile_def ok_def throw_def
        split: sum.splits option.splits)

lemma getThread_found:
  "safePath (threadsDir store) threadId = Inr p \<Longrightarrow> thread_files w p = Some t \<Longrightarrow>
   getThread store threadId w = (Inr t, w)"
  by (simp add: getThread_def io_bind_def io_of_def readThreadFile_def ok_def)

lemma getThread_Inr:
  "fst (getThread store threadId w) = Inr t \<Longrightarrow>
   \<exists>p. safePath (threadsDir store) threadId = Inr p \<and> thread_files w p = Some t"
  by (auto simp add: getThread_def io_bind_def io_of_def readThreadFile_def ok_def throw_def
        split: sum.splits option.splits)

lemma getThread_world: "snd (getThread store threadId w) = w"
  by (auto simp add: getThread_def io_bind_def io_of_def readThreadFile_def ok_def throw_def
        split: sum.splits option.splits)

lemma updateRun_found:
  "safePath (runsDir store) runId = Inr p \<Longrightarrow> run_files w p = Some run \<Longrightarrow>
   updateRun store runId u w =
     (Inr (), w\<lparr>uuid_count := Suc (uuid_count w),
               run_files := ((run_files w)(p \<mapsto> object_assign run u))(p @ ''.'' @ uuid_source w (uuid_count w) @ ''.tmp'' := None)\<rparr>)"
  by (simp add: updateRun_def getRun_found io_bind_def io_of_def writeRunFile_run)

lemma appendMessages_found:
  "safePath (threadsDir store) threadId = Inr p \<Longrightarrow> thread_files w p = Some t \<Longrightarrow>
   appendMessages store threadId ms w =
     (Inr (), w\<lparr>uuid_count := Suc (uuid_count w),
               thread_files := ((thread_files w)(p \<mapsto> t\<lparr>t_messages := t_messages t @ ms\<rparr>))(p @ ''.'' @ uuid_source w (uuid_count w) @ ''.tmp'' := None)\<rparr>)"
  by (simp add: appendMessages_def getThread_found io_bind_def io_of_def writeThreadFile_run)

lemma createRun_run:
  "createRun store inp tid cfg md w =
     (case safePath (runsDir store) (''run_'' @ uuid_source w (uuid_count w)) of
        Inl e \<Rightarrow> (Inl e, w\<lparr>uuid_count := Suc (uuid_count w), clock_reads := Suc (clock_reads w)\<rparr>)
      | Inr p \<Rightarrow>
          (let r = \<lparr>r_id = ''run_'' @ uuid_source w (uuid_count w), r_object = ''thread.run'',
                     r_thread_id = tid, r_status = Queued, r_input = inp, r_output = None,
                     r_last_error = None, r_usage = None, r_config = cfg, r_metadata = md,
                     r_created_at = clock w (clock_reads w), r_started_at = None,
                     r_completed_at = None, r_cancelled_at = None, r_failed_at = None\<rparr>
           in (Inr r,
               w\<lparr>uuid_count := Suc (Suc (uuid_count w)), clock_reads := Suc (clock_reads w),
                 run_files := ((run_files w)(p \<mapsto> r))
                    (p @ ''.'' @ uuid_source w (Suc (uuid_count w)) @ ''.tmp'' := None)\<rparr>)))"
  by (cases "safePath (runsDir store) (''run_'' @ uuid_source w (uuid_count w))")
     (simp_all add: createRun_def io_bind_def io_of_def randomUUID_def nowUnix_def Let_def
        ok_def writeRunFile_run)

lemma createRun_Inr:
  assumes "createRun store inp tid cfg md w = (Inr run, w')"
  shows "\<exists>p. safePath (runsDir store) (r_id run) = Inr p \<and> run_files w' p = Some run
           \<and> thread_files w' = thread_files w \<and> res_body w' = res_body w
           \<and> r_status run = Queued"
proof (cases "safePath (runsDir store) (''run_'' @ uuid_source w (uuid_count w))")
  case (Inl e)
  with assms show ?thesis by (simp add: createRun_run)
next
  case (Inr p)
  let ?r = "\<lparr>r_id = ''run_'' @ uuid_source w (uuid_count w), r_object = ''thread.run'',
                     r_thread_id = tid, r_status = Queued, r_input = inp, r_output = None,
                     r_last_error = None, r_usage = None, r_config = cfg, r_metadata = md,
                     r_created_at = clock w (clock_reads w), r_started_at = None,
                     r_completed_at = None, r_cancelled_at = None, r_failed_at = None\<rparr>"
  from assms have "fst (createRun store inp tid cfg md w) = Inr run"
    and "snd (createRun store inp tid cfg md w) = w'"
    by simp_all
  with Inr have r: "?r = run"
    and w': "w\<lparr>uuid_count := Suc (Suc (uuid_count w)), clock_reads := Suc (clock_reads w),
                 run_files := ((run_files w)(p \<mapsto> ?r))
                    (p @ ''.'' @ uuid_source w (Suc (uuid_count w)) @ ''.tmp'' := None)\<rparr> = w'"
    by (simp_all add: createRun_run Let_def)
  have "safePath (runsDir store) (r_id ?r) = Inr p"
    using Inr by simp
  moreover have "run_files w' p = Some ?r" "thread_files w' = thread_files w"
    "res_body w' = res_body w"
    unfolding w' [symmetric] by simp_all
  ultimately show ?thesis
    unfolding r [symmetric] by simp
qed

lemma createThread_run:
  "createThread store md w =
     (case safePath (threadsDir store) (''thread_'' @ uuid_source w (uuid_count w)) of
        Inl e \<Rightarrow> (Inl e, w\<lparr>uuid_count := Suc (uuid_count w), clock_reads := Suc (clock_reads w)\<rparr>)
      | Inr p \<Rightarrow>
          (let t = \<lparr>t_id = ''thread_'' @ uuid_source w (uuid_count w), t_object = ''thread'',
                     t_messages = [], t_metadata = (case md of Some m \<Rightarrow> m | None \<Rightarrow> []),
                     t_created_at = clock w (clock_reads w)\<rparr>
           in (Inr t,
               w\<lparr>uuid_count := Suc (Suc (uuid_count w)), clock_reads := Suc (clock_reads w),
                 thread_files := ((thread_files w)(p \<mapsto> t))
                    (p @ ''.'' @ uuid_source w (Suc (uuid_count w)) @ ''.tmp'' := None)\<rparr>)))"
  by (cases "safePath (threadsDir store) (''thread_'' @ uuid_source w (uuid_count w))")
     (simp_all add: createThread_def io_bind_def io_of_def randomUUID_def nowUnix_def Let_def
        ok_def writeThreadFile_run)

lemma createThread_Inr:
  assumes "fst (createThread store md w) = Inr t"
  shows "\<exists>p. safePath (threadsDir store) (t_id t) = Inr p
           \<and> thread_files (snd (createThread store md w)) p = Some t
           \<and> t_messages t = [] \<and> t_metadata t = (case md of Some m \<Rightarrow> m | None \<Rightarrow> [])
           \<and> t_object t = ''thread''"
proof (cases "safePath (threadsDir store) (''thread_'' @ uuid_source w (uuid_count w))")
  case (Inl e)
  with assms show ?thesis by (simp add: createThread_run)
next
  case (Inr p)
  let ?t = "\<lparr>t_id = ''thread_'' @ uuid_source w (uuid_count w), t_object = ''thread'',
                     t_messages = [], t_metadata = (case md of Some m \<Rightarrow> m | None \<Rightarrow> []),
                     t_created_at = clock w (clock_reads w)\<rparr>"
  from assms Inr have t: "?t = t"
    by (simp add: createThread_run Let_def)
  have "thread_files (snd (createThread store md w)) p = Some ?t"
    using Inr by (simp add: createThread_run Let_def)
  moreover have "safePath (threadsDir store) (t_id ?t) = Inr p"
    using Inr by simp
  ultimately show ?thesis
    unfolding t [symmetric] by simp
qed

lemma safePath_demo:
  "safePath (threadsDir demo_store) ''thread_a'' = Inr ''/data/threads/thread_a.json''"
  "safePath (runsDir demo_store) ''run_1'' = Inr ''/data/runs/run_1.json''"
  "safePath (runsDir demo_store) ''run_aa'' = Inr ''/data/runs/run_aa.json''"
  "safePath (threadsDir demo_store) ''thread_nope'' = Inr ''/data/threads/thread_nope.json''"
  by (simp_all add: demo_store_def safePath_def FileAgentStore_def path_join_def normalize_def
        normalizeString_def split_path_def Let_def)


lemma io_bind_Inr: "m w = (Inr x, w') \<Longrightarrow> io_bind m f w = f x w'"
  by (simp add: io_bind_def)

lemma io_bind_Inl: "m w = (Inl e, w') \<Longrightarrow> io_bind m f w = (Inl e, w')"
  by (simp add: io_bind_def)

lemma nowUnix_run:
  "nowUnix w = (Inr (clock w (clock_reads w)), w\<lparr>clock_reads := Suc (clock_reads w)\<rparr>)"
  by (simp add: nowUnix_def)

lemma getRun_after_updateRun:
  assumes p: "safePath (runsDir store) runId = Inr p" and f: "run_files w p = Some run"
  shows "getRun store runId (snd (updateRun store runId u w))
           = (Inr (object_assign run u), snd (updateRun store runId u w))"
  by (rule getRun_found [OF p]) (simp add: updateRun_found [OF p f])

lemma object_assign_fields:
  "r_id (object_assign run u) = assign (r_id run) (up_id u)"
  "r_object (object_assign run u) = assign (r_object run) (up_object u)"
  "r_thread_id (object_assign run u) = assign (r_thread_id run) (up_thread_id u)"
  "r_status (object_assign run u) = assign (r_status run) (up_status u)"
  "r_input (object_assign run u) = assign (r_input run) (up_input u)"
  "r_output (object_assign run u) = assign (r_output run) (up_output u)"
  "r_last_error (object_assign run u) = assign (r_last_error run) (up_last_error u)"
  "r_usage (object_assign run u) = assign (r_usage run) (up_usage u)"
  "r_config (object_assign run u) = assign (r_config run) (up_config u)"
  "r_metadata (object_assign run u) = assign (r_metadata run) (up_metadata u)"
  "r_created_at (object_assign run u) = assign (r_created_at run) (up_created_at u)"
  "r_started_at (object_assign run u) = assign (r_started_at run) (up_started_at u)"
  "r_completed_at (object_assign run u) = assign (r_completed_at run) (up_completed_at u)"
  "r_cancelled_at (object_assign run u) = assign (r_cancelled_at run) (up_cancelled_at u)"
  "r_failed_at (object_assign run u) = assign (r_failed_at run) (up_failed_at u)"
  by (simp_all add: object_assign_def)

lemma assign_simps [simp]: "assign old None = old" "assign old (Some v) = v"
  by (simp_all add: assign_def)

lemma no_updates_fields [simp]:
  "up_id no_updates = None" "up_object no_updates = None" "up_thread_id no_updates = None"
  "up_status no_updates = None" "up_input no_updates = None" "up_output no_updates = None"
  "up_last_error no_updates = None" "up_usage no_updates = None" "up_config no_updates = None"
  "up_metadata no_updates = None" "up_created_at no_updates = None"
  "up_started_at no_updates = None" "up_completed_at no_updates = None"
  "up_cancelled_at no_updates = None" "up_failed_at no_updates = None"
  by (simp_all add: no_updates_def)

lemma getRun_demo: "getRun demo_store ''run_1'' demo_run_world = (Inr demo_run, demo_run_world)"
  by (rule getRun_found [OF safePath_demo(2)]) (simp add: demo_run_world_def)


lemma newMsgId_run:
  "newMsgId w = (Inr (''msg_'' @ uuid_source w (uuid_count w)), w\<lparr>uuid_count := Suc (uuid_count w)\<rparr>)"
  by (simp add: newMsgId_def io_bind_def randomUUID_def ok_def)

lemma updateRun_step:
  assumes p: "safePath (runsDir store) runId = Inr p" and f: "run_files w p = Some run"
  shows "updateRun store runId u w = (Inr (), snd (updateRun store runId u w))"
    and "run_files (snd (updateRun store runId u w)) p = Some (object_assign run u)"
    and "thread_files (snd (updateRun store runId u w)) = thread_files w"
    and "res_body (snd (updateRun store runId u w)) = res_body w"
    and "clock (snd (updateRun store runId u w)) = clock w"
    and "clock_reads (snd (updateRun store runId u w)) = clock_reads w"
  by (simp_all add: updateRun_found [OF p f])


lemma getThread_cong:
  "thread_files w' = thread_files w \<Longrightarrow> fst (getThread store t w') = fst (getThread store t w)"
  by (cases "safePath (threadsDir store) t")
     (simp_all add: getThread_def io_bind_def io_of_def readThreadFile_def ok_def throw_def
        split: option.splits)

lemma appendMessages_fails:
  assumes "fst (getThread store t w) = Inl e"
  shows "appendMessages store t ms w = (Inl e, w)"
proof -
  have "getThread store t w = (Inl e, w)"
    using assms getThread_world [of store t w] by (simp add: prod_eq_iff)
  then show ?thesis
    unfolding appendMessages_def by (rule io_bind_Inl)
qed

lemma io_bind_fails: "fst (m w) = Inl e \<Longrightarrow> fst (io_bind m f w) = Inl e"
  by (cases "m w") (simp add: io_bind_def)

lemma safePath_demo2:
  "safePath (runsDir demo_store) ''run_aaa'' = Inr ''/data/runs/run_aaa.json''"
  by (simp_all add: demo_store_def safePath_def FileAgentStore_def path_join_def normalize_def
        normalizeString_def split_path_def Let_def)



section \<open>The stream adapter\<close>

lemma usage_sums:
  "usage c = None \<Longrightarrow> usage_prompt c = 0"
  "usage c = None \<Longrightarrow> usage_completion c = 0"
  "usage c = Some u \<Longrightarrow> usage_prompt c = (case prompt_tokens u of None \<Rightarrow> 0 | Some n \<Rightarrow> n)"
  "usage c = Some u \<Longrightarrow> usage_completion c = (case completion_tokens u of None \<Rightarrow> 0 | Some n \<Rightarrow> n)"
  by (simp_all add: usage_prompt_def usage_completion_def)

lemma toMessageObject_run:
  "toMessageObject msg runId w =
     (Inr \<lparr>m_id = ''msg_'' @ uuid_source w (uuid_count w), m_object = ''thread.message'',
           m_created_at = clock w (clock_reads w),
           m_thread_id = None, m_run_id = runId, m_role = Assistant,
           m_status = MsgCompleted, m_content = toContentBlocks msg,
           m_metadata = None\<rparr>,
      w\<lparr>uuid_count := Suc (uuid_count w), clock_reads := Suc (clock_reads w)\<rparr>)"
  by (simp add: toMessageObject_def newMsgId_def io_bind_def randomUUID_def nowUnix_def ok_def)

lemma extract_loop_run:
  "uuid_source w = uuid_source w0 \<Longrightarrow> clock w = clock w0 \<Longrightarrow>
   uuid_count w = uuid_count w0 + n \<Longrightarrow> clock_reads w = clock_reads w0 + n \<Longrightarrow>
   extract_loop msgs runId (out, pt, ct, hu) w =
     (Inr (out @ map (collected_message w0 runId) (enumerate n (present_messages msgs)),
           pt + sum_list (map usage_prompt msgs),
           ct + sum_list (map usage_completion msgs),
           hu \<or> (\<exists>c \<in> set msgs. usage c \<noteq> None)),
      w\<lparr>uuid_count := uuid_count w + length (present_messages msgs),
        clock_reads := clock_reads w + length (present_messages msgs)\<rparr>)"
proof (induction msgs arbitrary: out pt ct hu w n)
  case Nil
  then show ?case by (simp add: ok_def present_messages_def)
next
  case (Cons c cs)
  show ?case
  proof (cases "message c")
    case None
    have pm: "present_messages (c # cs) = present_messages cs"
      using None by (simp add: present_messages_def)
    show ?thesis
      using None Cons.prems
      by (cases "usage c")
         (simp_all add: pm Cons.IH [OF Cons.prems] usage_sums)
  next
    case (Some m)
    have pm: "present_messages (c # cs) = m # present_messages cs"
      using Some by (simp add: present_messages_def)
    let ?w' = "w\<lparr>uuid_count := Suc (uuid_count w), clock_reads := Suc (clock_reads w)\<rparr>"
    let ?obj = "collected_message w0 runId (n, m)"
    let ?acc = "(case usage c of
               Some u \<Rightarrow>
                 (out @ [?obj],
                  pt + (case prompt_tokens u of Some n \<Rightarrow> n | None \<Rightarrow> 0),
                  ct + (case completion_tokens u of Some n \<Rightarrow> n | None \<Rightarrow> 0),
                  True)
             | None \<Rightarrow> (out @ [?obj], pt, ct, hu))"
    have step: "extract_loop (c # cs) runId (out, pt, ct, hu) w = extract_loop cs runId ?acc ?w'"
      using Some Cons.prems
      by (cases "usage c")
         (simp_all add: toMessageObject_run io_bind_def ok_def collected_message_def)
    have ih: "\<And>out pt ct hu. extract_loop cs runId (out, pt, ct, hu) ?w' =
     (Inr (out @ map (collected_message w0 runId) (enumerate (Suc n) (present_messages cs)),
           pt + sum_list (map usage_prompt cs),
           ct + sum_list (map usage_completion cs),
           hu \<or> (\<exists>c \<in> set cs. usage c \<noteq> None)),
      ?w'\<lparr>uuid_count := uuid_count ?w' + length (present_messages cs),
        clock_reads := clock_reads ?w' + length (present_messages cs)\<rparr>)"
      by (rule Cons.IH) (use Cons.prems in simp_all)
    show ?thesis
      unfolding step
      by (cases "usage c") (simp_all add: ih pm usage_sums)
  qed
qed

lemma extractFromStreamMessages_run:
  "extractFromStreamMessages messages runId w =
     (Inr \<lparr>ex_output = map (collected_message w runId) (enumerate 0 (present_messages messages)),
           ex_usage =
             (if \<exists>c \<in> set messages. usage c \<noteq> None
              then Some \<lparr>u_prompt_tokens = sum_list (map usage_prompt messages),
                         u_completion_tokens = sum_list (map usage_completion messages),
                         u_total_tokens = sum_list (map usage_prompt messages)
                                        + sum_list (map usage_completion messages)\<rparr>
              else None)\<rparr>,
      w\<lparr>uuid_count := uuid_count w + length (present_messages messages),
        clock_reads := clock_reads w + length (present_messages messages)\<rparr>)"
  by (simp add: extractFromStreamMessages_def io_bind_def ok_def
        extract_loop_run [where ?w0.0 = w and n = 0, simplified])


text \<open>
  Claim C3.  For every finite list of chunks, \<open>extractFromStreamMessages\<close> returns (it
  never throws) an output list that holds, in chunk order, one message for each chunk
  whose \<open>message\<close> field is present: role \<open>assistant\<close>, status \<open>completed\<close>, the
  run id attached, the content given by \<open>toContentBlocks\<close>, and an id drawn afresh
  from the UUID source.  It returns a usage object exactly when some chunk has a
  \<open>usage\<close> field; its prompt and completion counts are the sums over the chunks
  (absent counts are 0) and its total is their sum.
\<close>

theorem extractFromStreamMessages_collects:
  "fst (extractFromStreamMessages messages runId w) =
     Inr \<lparr>ex_output = map (collected_message w runId) (enumerate 0 (present_messages messages)),
          ex_usage =
            (if \<exists>c \<in> set messages. usage c \<noteq> None
             then Some \<lparr>u_prompt_tokens = sum_list (map usage_prompt messages),
                        u_completion_tokens = sum_list (map usage_completion messages),
                        u_total_tokens = sum_list (map usage_prompt messages)
                                       + sum_list (map usage_completion messages)\<rparr>
             else None)\<rparr>"
  by (simp add: extractFromStreamMessages_run)


section \<open>Threads in the file store\<close>

text \<open>
  Claim C9.  In every world, when \<open>createThread\<close> returns a record, \<open>getThread\<close> on
  the id of that record succeeds and returns the same record (so the same id,
  \<open>created_at\<close> and metadata), whose list of messages is empty and whose metadata are
  the ones given to \<open>createThread\<close> (none: empty).
\<close>

theorem createThread_getThread_roundtrip:
  assumes "fst (createThread store md w) = Inr created"
  shows "getThread store (t_id created) (snd (createThread store md w))
           = (Inr created, snd (createThread store md w))
         \<and> t_messages created = []
         \<and> t_metadata created = (case md of Some m \<Rightarrow> m | None \<Rightarrow> [])"
proof -
  from createThread_Inr [OF assms] obtain p where
    "safePath (threadsDir store) (t_id created) = Inr p"
    "thread_files (snd (createThread store md w)) p = Some created"
    "t_messages created = []" "t_metadata created = (case md of Some m \<Rightarrow> m | None \<Rightarrow> [])"
    by blast
  then show ?thesis by (simp add: getThread_found)
qed

theorem createThread_getThread_roundtrip_witness:
  "fst (createThread demo_store (Some [(''k'', JStr ''v'')]) demo_world)
     = Inr \<lparr>t_id = ''thread_a'', t_object = ''thread'', t_messages = [],
            t_metadata = [(''k'', JStr ''v'')], t_created_at = 1700000000\<rparr>
   \<and> fst (getThread demo_store ''thread_a''
            (snd (createThread demo_store (Some [(''k'', JStr ''v'')]) demo_world)))
     = Inr \<lparr>t_id = ''thread_a'', t_object = ''thread'', t_messages = [],
            t_metadata = [(''k'', JStr ''v'')], t_created_at = 1700000000\<rparr>"
proof -
  have h: "fst (createThread demo_store (Some [(''k'', JStr ''v'')]) demo_world)
     = Inr \<lparr>t_id = ''thread_a'', t_object = ''thread'', t_messages = [],
            t_metadata = [(''k'', JStr ''v'')], t_created_at = 1700000000\<rparr>"
    by (simp add: createThread_run demo_world_def safePath_demo Let_def)
  from createThread_getThread_roundtrip [OF h] h show ?thesis by simp
qed


section \<open>Updating a run\<close>

text \<open>
  Claim C7, as amended.  For every run record that exists and every partial update,
  \<open>updateRun\<close> succeeds and the record read back afterwards is the shallow merge of
  the record with the partial (read, \<open>Object.assign\<close>, write).  Each of the fields
  \<open>id\<close>, \<open>object\<close>, \<open>created_at\<close> and \<open>input\<close> keeps its value when the partial
  does not have that key, and takes the partial's value when it has.
\<close>

theorem updateRun_shallow_merge:
  assumes "fst (getRun store runId w) = Inr run"
  shows "fst (updateRun store runId updates w) = Inr ()
       \<and> fst (getRun store runId (snd (updateRun store runId updates w)))
           = Inr (object_assign run updates)
       \<and> r_id (object_assign run updates) = (case up_id updates of None \<Rightarrow> r_id run | Some v \<Rightarrow> v)
       \<and> r_object (object_assign run updates)
           = (case up_object updates of None \<Rightarrow> r_object run | Some v \<Rightarrow> v)
       \<and> r_created_at (object_assign run updates)
           = (case up_created_at updates of None \<Rightarrow> r_created_at run | Some v \<Rightarrow> v)
       \<and> r_input (object_assign run updates)
           = (case up_input updates of None \<Rightarrow> r_input run | Some v \<Rightarrow> v)"
proof -
  from getRun_Inr [OF assms] obtain p where
    p: "safePath (runsDir store) runId = Inr p" and f: "run_files w p = Some run"
    by blast
  have 1: "fst (updateRun store runId updates w) = Inr ()"
    by (simp add: updateRun_found [OF p f])
  have 2: "fst (getRun store runId (snd (updateRun store runId updates w)))
           = Inr (object_assign run updates)"
    by (simp add: getRun_after_updateRun [OF p f])
  show ?thesis
    unfolding object_assign_fields assign_def using 1 2 by simp
qed

theorem updateRun_shallow_merge_witness:
  "fst (getRun demo_store ''run_1'' demo_run_world) = Inr demo_run
   \<and> fst (getRun demo_store ''run_1''
           (snd (updateRun demo_store ''run_1'' (no_updates\<lparr>up_status := Some Completed\<rparr>)
                  demo_run_world)))
       = Inr (object_assign demo_run (no_updates\<lparr>up_status := Some Completed\<rparr>))
   \<and> r_id (object_assign demo_run (no_updates\<lparr>up_status := Some Completed\<rparr>)) = ''run_1''
   \<and> r_status (object_assign demo_run (no_updates\<lparr>up_status := Some Completed\<rparr>)) = Completed"
proof -
  have h: "fst (getRun demo_store ''run_1'' demo_run_world) = Inr demo_run"
    by (simp add: getRun_demo)
  have "r_id demo_run = ''run_1''"
    by (simp add: demo_run_def)
  with updateRun_shallow_merge [OF h, of "no_updates\<lparr>up_status := Some Completed\<rparr>"] h
  show ?thesis by (simp add: object_assign_fields)
qed


text \<open>The claim as stated fails for a partial that contains the key \<open>id\<close>: the stored
  record's id becomes the partial's.\<close>

theorem updateRun_overwrites_id_counterexample:
  "fst (getRun demo_store ''run_1'' demo_run_world) = Inr demo_run
   \<and> r_id demo_run = ''run_1''
   \<and> map_sum id r_id
        (fst (getRun demo_store ''run_1''
           (snd (updateRun demo_store ''run_1'' (no_updates\<lparr>up_id := Some ''run_2''\<rparr>)
                  demo_run_world))))
       = Inr ''run_2''"
proof -
  have f: "run_files demo_run_world ''/data/runs/run_1.json'' = Some demo_run"
    by (simp add: demo_run_world_def)
  have "r_id demo_run = ''run_1''"
    by (simp add: demo_run_def)
  then show ?thesis
    by (simp add: getRun_demo getRun_after_updateRun [OF safePath_demo(2) f]
          object_assign_fields)
qed



section \<open>Input messages\<close>

lemma toInputMessageObjects_from:
  "uuid_source w = uuid_source w0 \<Longrightarrow> clock w = clock w0 \<Longrightarrow>
   uuid_count w = uuid_count w0 + n \<Longrightarrow> clock_reads w = clock_reads w0 + n \<Longrightarrow>
   toInputMessageObjects msgs threadId w =
     (Inr (map (input_object w0 threadId) (enumerate n (history_messages msgs))),
      w\<lparr>uuid_count := uuid_count w + length (history_messages msgs),
        clock_reads := clock_reads w + length (history_messages msgs)\<rparr>)"
proof (induction msgs arbitrary: w n)
  case Nil
  then show ?case by (simp add: ok_def history_messages_def)
next
  case (Cons m ms)
  show ?case
  proof (cases "im_role m = System")
    case True
    then have h: "history_messages (m # ms) = history_messages ms"
      by (simp add: history_messages_def)
    show ?thesis
      using True by (simp add: h Cons.IH [OF Cons.prems])
  next
    case False
    then have h: "history_messages (m # ms) = m # history_messages ms"
      by (simp add: history_messages_def)
    let ?w' = "w\<lparr>uuid_count := Suc (uuid_count w), clock_reads := Suc (clock_reads w)\<rparr>"
    have ih: "toInputMessageObjects ms threadId ?w' =
     (Inr (map (input_object w0 threadId) (enumerate (Suc n) (history_messages ms))),
      ?w'\<lparr>uuid_count := uuid_count ?w' + length (history_messages ms),
        clock_reads := clock_reads ?w' + length (history_messages ms)\<rparr>)"
      by (rule Cons.IH) (use Cons.prems in simp_all)
    have step: "toInputMessageObjects (m # ms) threadId w =
        io_bind (toInputMessageObjects ms threadId) (\<lambda>rest.
          ok (\<lparr>m_id = ''msg_'' @ uuid_source w (uuid_count w), m_object = ''thread.message'',
               m_created_at = clock w (clock_reads w),
               m_thread_id = threadId, m_run_id = None, m_role = im_role m,
               m_status = MsgCompleted, m_content = input_content_blocks m,
               m_metadata = None\<rparr> # rest)) ?w'"
      using False
      by (simp add: io_bind_Inr [where m = newMsgId, OF newMsgId_run]
            io_bind_Inr [where m = nowUnix, OF nowUnix_run] input_content_blocks_def)
    show ?thesis
      unfolding step io_bind_Inr [where m = "toInputMessageObjects ms threadId", OF ih]
      using Cons.prems
      by (simp add: ok_def h input_object_def)
  qed
qed

lemma toInputMessageObjects_run:
  "toInputMessageObjects msgs threadId w =
     (Inr (map (input_object w threadId) (enumerate 0 (history_messages msgs))),
      w\<lparr>uuid_count := uuid_count w + length (history_messages msgs),
        clock_reads := clock_reads w + length (history_messages msgs)\<rparr>)"
  by (rule toInputMessageObjects_from [where n = 0, simplified]) simp_all







section \<open>The synchronous run\<close>




text \<open>The \<open>catch\<close> clause of \<open>syncRun\<close>: mark the run failed, then throw the error again.\<close>

lemma sync_catch:
  assumes p: "safePath (runsDir store) runId = Inr p" and f: "run_files w p = Some run"
  shows "\<exists>w'. io_bind nowUnix (\<lambda>failedAt.
           io_bind (updateRun store runId
                  (no_updates\<lparr>up_status := Some Failed,
                              up_last_error := Some (Some (exec_error err)),
                              up_failed_at := Some (Some failedAt)\<rparr>)) (\<lambda>_.
           throw err)) w = (Inl err, w')
         \<and> run_files w' p
             = Some (object_assign run
                  (no_updates\<lparr>up_status := Some Failed,
                              up_last_error := Some (Some (exec_error err)),
                              up_failed_at := Some (Some (clock w (clock_reads w)))\<rparr>))"
proof -
  let ?w1 = "w\<lparr>clock_reads := Suc (clock_reads w)\<rparr>"
  let ?u = "no_updates\<lparr>up_status := Some Failed, up_last_error := Some (Some (exec_error err)),
                       up_failed_at := Some (Some (clock w (clock_reads w)))\<rparr>"
  let ?w' = "snd (updateRun store runId ?u ?w1)"
  have f1: "run_files ?w1 p = Some run"
    using f by simp
  have "io_bind nowUnix (\<lambda>failedAt.
           io_bind (updateRun store runId
                  (no_updates\<lparr>up_status := Some Failed,
                              up_last_error := Some (Some (exec_error err)),
                              up_failed_at := Some (Some failedAt)\<rparr>)) (\<lambda>_.
           throw err)) w = (Inl err, ?w')"
    by (simp only: io_bind_Inr [where m = nowUnix, OF nowUnix_run]
          io_bind_Inr [where m = "updateRun store runId ?u", OF updateRun_step(1) [OF p f1]]
          throw_def)
  moreover have "run_files ?w' p = Some (object_assign run ?u)"
    by (rule updateRun_step(2) [OF p f1])
  ultimately show ?thesis
    by blast
qed

lemma sync_exec_fails:
  assumes r: "resolveThreadId store inp w = (Inr threadId, w1)"
      and c: "createRun store (input_messages inp) (Some threadId) (config inp) (metadata inp) w1
                = (Inr run, w2)"
      and e: "snd (execRun inp) = Some err"
  shows "\<exists>w' p failedAt.
           defaultSyncRun store execRun inp w = (Inl err, w')
         \<and> safePath (runsDir store) (r_id run) = Inr p
         \<and> run_files w' p
             = Some (run\<lparr>r_status := Failed, r_last_error := Some (exec_error err),
                        r_started_at := Some (clock w2 (clock_reads w2)),
                        r_failed_at := Some failedAt\<rparr>)"
proof -
  from createRun_Inr [OF c] obtain p where
    p: "safePath (runsDir store) (r_id run) = Inr p" and f2: "run_files w2 p = Some run"
    by blast
  let ?rid = "r_id run"
  define sa where "sa = clock w2 (clock_reads w2)"
  define w3 where "w3 = w2\<lparr>clock_reads := Suc (clock_reads w2)\<rparr>"
  have s1: "nowUnix w2 = (Inr sa, w3)"
    by (simp add: nowUnix_run sa_def w3_def)
  have f3: "run_files w3 p = Some run"
    using f2 by (simp add: w3_def)
  let ?u1 = "no_updates\<lparr>up_status := Some InProgress, up_started_at := Some (Some sa)\<rparr>"
  define w4 where "w4 = snd (updateRun store ?rid ?u1 w3)"
  have s2: "updateRun store ?rid ?u1 w3 = (Inr (), w4)"
    and f4: "run_files w4 p = Some (object_assign run ?u1)"
    using updateRun_step [OF p f3, of ?u1] by (simp_all add: w4_def)
  have s3: "drain (execRun inp) w4 = (Inl err, w4)"
    by (simp add: drain_def e throw_def)
  from sync_catch [OF p f4, of err] obtain w' where
    h: "io_bind nowUnix (\<lambda>failedAt.
           io_bind (updateRun store ?rid
                  (no_updates\<lparr>up_status := Some Failed,
                              up_last_error := Some (Some (exec_error err)),
                              up_failed_at := Some (Some failedAt)\<rparr>)) (\<lambda>_.
           throw err)) w4 = (Inl err :: error + run_object, w')"
    and f': "run_files w' p
             = Some (object_assign (object_assign run ?u1)
                  (no_updates\<lparr>up_status := Some Failed,
                              up_last_error := Some (Some (exec_error err)),
                              up_failed_at := Some (Some (clock w4 (clock_reads w4)))\<rparr>))"
    by blast
  have "defaultSyncRun store execRun inp w = (Inl err, w')"
    unfolding defaultSyncRun_def io_catch_def
    by (simp only: io_bind_Inr [where m = "resolveThreadId store inp", OF r]
          io_bind_Inr [where m = "createRun store (input_messages inp) (Some threadId) (config inp)
             (metadata inp)", OF c]
          io_bind_Inr [where m = nowUnix, OF s1]
          io_bind_Inr [where m = "updateRun store ?rid ?u1", OF s2]
          io_bind_Inl [where m = "drain (execRun inp)", OF s3]
          prod.case sum.case) (rule h)
  moreover have "object_assign (object_assign run ?u1)
                  (no_updates\<lparr>up_status := Some Failed,
                              up_last_error := Some (Some (exec_error err)),
                              up_failed_at := Some (Some (clock w4 (clock_reads w4)))\<rparr>)
       = run\<lparr>r_status := Failed, r_last_error := Some (exec_error err),
                        r_started_at := Some sa,
                        r_failed_at := Some (clock w4 (clock_reads w4))\<rparr>"
    by (simp add: object_assign_def no_updates_def)
  ultimately show ?thesis
    using p f' unfolding sa_def by auto
qed


lemma resolve_fresh:
  assumes "thread_id inp = None \<or> thread_id inp = Some []"
      and r: "resolveThreadId store inp w = (Inr threadId, w1)"
  shows "\<exists>t. getThread store threadId w1 = (Inr t, w1) \<and> t_messages t = []"
proof -
  have b: "resolveThreadId store inp w
             = io_bind (createThread store None) (\<lambda>thread. ok (t_id thread)) w"
    using assms(1) by (auto simp add: resolveThreadId_def)
  show ?thesis
  proof (cases "fst (createThread store None w)")
    case (Inl e)
    then have "fst (resolveThreadId store inp w) = Inl e"
      unfolding b by (rule io_bind_fails)
    with r show ?thesis by simp
  next
    case (Inr t)
    then have c: "createThread store None w = (Inr t, snd (createThread store None w))"
      by (simp add: prod_eq_iff)
    have "resolveThreadId store inp w = (Inr (t_id t), snd (createThread store None w))"
      unfolding b by (simp only: io_bind_Inr [where m = "createThread store None", OF c] ok_def)
    with r have "threadId = t_id t" "w1 = snd (createThread store None w)"
      by simp_all
    with createThread_Inr [OF Inr] show ?thesis
      by (auto simp add: getThread_found)
  qed
qed

lemma demo_resolve:
  "resolveThreadId demo_store demo_input demo_world
     = (Inr ''thread_a'', snd (resolveThreadId demo_store demo_input demo_world))"
  "uuid_source (snd (resolveThreadId demo_store demo_input demo_world))
     (uuid_count (snd (resolveThreadId demo_store demo_input demo_world))) = ''aaa''"
  by (simp_all add: resolveThreadId_def demo_input_def io_bind_def createThread_run demo_world_def
        safePath_demo Let_def ok_def)

lemma demo_createRun:
  "\<exists>run. createRun demo_store (input_messages demo_input) (Some ''thread_a'') (config demo_input)
            (metadata demo_input) (snd (resolveThreadId demo_store demo_input demo_world))
         = (Inr run, snd (createRun demo_store (input_messages demo_input) (Some ''thread_a'')
                (config demo_input) (metadata demo_input)
                (snd (resolveThreadId demo_store demo_input demo_world))))
       \<and> r_id run = ''run_aaa''"
  by (simp add: createRun_run demo_resolve(2) safePath_demo2 Let_def)


text \<open>
  Claim C6.  In every call of \<open>syncRun\<close> that reaches \<open>execRun\<close> (the thread id is
  resolved and the run is created) and in which \<open>execRun\<close> raises an error, the handler
  raises that same error, and the run record it leaves in the store has status
  \<open>failed\<close>, \<open>last_error = {code: "EXEC_ERROR", message: <the error's message>}\<close> and
  \<open>failed_at\<close> set.
\<close>

theorem syncRun_exec_error:
  assumes r: "resolveThreadId store inp w = (Inr threadId, w1)"
      and c: "createRun store (input_messages inp) (Some threadId) (config inp) (metadata inp) w1
                = (Inr run, w2)"
      and e: "snd (execRun inp) = Some err"
  shows "\<exists>w' stored failedAt.
           defaultSyncRun store execRun inp w = (Inl err, w')
         \<and> getRun store (r_id run) w' = (Inr stored, w')
         \<and> r_status stored = Failed
         \<and> r_last_error stored = Some \<lparr>code = ''EXEC_ERROR'', err_message = error_message err\<rparr>
         \<and> r_failed_at stored = Some failedAt
         \<and> r_id stored = r_id run \<and> r_input stored = r_input run"
proof -
  from sync_exec_fails [where execRun = execRun, OF r c e] obtain w' p failedAt where
    d: "defaultSyncRun store execRun inp w = (Inl err, w')"
    and p: "safePath (runsDir store) (r_id run) = Inr p"
    and f: "run_files w' p
             = Some (run\<lparr>r_status := Failed, r_last_error := Some (exec_error err),
                        r_started_at := Some (clock w2 (clock_reads w2)),
                        r_failed_at := Some failedAt\<rparr>)"
    by blast
  show ?thesis
    using d getRun_found [OF p f] by (simp add: exec_error_def)
qed


theorem syncRun_exec_error_witness:
  "\<exists>w' stored.
     defaultSyncRun demo_store demo_exec_fail demo_input demo_world = (Inl (Error ''boom''), w')
   \<and> getRun demo_store ''run_aaa'' w' = (Inr stored, w')
   \<and> r_status stored = Failed
   \<and> r_last_error stored = Some \<lparr>code = ''EXEC_ERROR'', err_message = ''boom''\<rparr>"
proof -
  from demo_createRun obtain run where
    c: "createRun demo_store (input_messages demo_input) (Some ''thread_a'') (config demo_input)
            (metadata demo_input) (snd (resolveThreadId demo_store demo_input demo_world))
         = (Inr run, snd (createRun demo_store (input_messages demo_input) (Some ''thread_a'')
                (config demo_input) (metadata demo_input)
                (snd (resolveThreadId demo_store demo_input demo_world))))"
    and i: "r_id run = ''run_aaa''"
    by blast
  have e: "snd (demo_exec_fail demo_input) = Some (Error ''boom'')"
    by (simp add: demo_exec_fail_def)
  from syncRun_exec_error [where execRun = demo_exec_fail, OF demo_resolve(1) c e]
  show ?thesis
    unfolding i by auto
qed





section \<open>Cancelling a run\<close>

lemma abort_and_await_ok: "fst (abort_and_await store execRun ab runId w) = Inr ()"
  by (cases "running_tasks w runId")
     (auto simp add: abort_and_await_def io_catch_def ok_def split: prod.splits sum.splits)

lemma cancel_run:
  assumes g: "fst (getRun store runId (snd (abort_and_await store execRun ab runId w))) = Inr run"
  shows "defaultCancelRun store execRun ab runId w =
     (let w1 = snd (abort_and_await store execRun ab runId w) in
      if r_status run \<in> {Completed, Failed, Cancelled, Expired}
      then (Inl (Error (''Cannot cancel run with status '' @ [CHR 0x27] @ status_name (r_status run)
                          @ [CHR 0x27])), w1)
      else (Inr \<lparr>ro_id = r_id run, ro_object = ''thread.run'', ro_created_at = r_created_at run,
                 ro_thread_id = r_thread_id run, ro_status = Cancelled, ro_last_error = None,
                 ro_started_at = None, ro_completed_at = None,
                 ro_cancelled_at = Some (clock w1 (clock_reads w1)),
                 ro_failed_at = None, ro_usage = None, ro_metadata = None, ro_output = None,
                 ro_config = None\<rparr>,
            snd (updateRun store runId
                   (no_updates\<lparr>up_status := Some Cancelled,
                               up_cancelled_at := Some (Some (clock w1 (clock_reads w1)))\<rparr>)
                   (w1\<lparr>clock_reads := Suc (clock_reads w1)\<rparr>))))"
proof -
  let ?w1 = "snd (abort_and_await store execRun ab runId w)"
  let ?w2 = "?w1\<lparr>clock_reads := Suc (clock_reads ?w1)\<rparr>"
  let ?u = "no_updates\<lparr>up_status := Some Cancelled,
                       up_cancelled_at := Some (Some (clock ?w1 (clock_reads ?w1)))\<rparr>"
  have a: "abort_and_await store execRun ab runId w = (Inr (), ?w1)"
    using abort_and_await_ok [of store execRun ab runId w] by (simp add: prod_eq_iff)
  from getRun_Inr [OF g] obtain p where
    p: "safePath (runsDir store) runId = Inr p" and f: "run_files ?w1 p = Some run"
    by blast
  have f': "run_files ?w2 p = Some run"
    using f by simp
  have u: "updateRun store runId ?u ?w2 = (Inr (), snd (updateRun store runId ?u ?w2))"
    by (simp add: updateRun_found [OF p f'])
  show ?thesis
  proof (cases "r_status run \<in> {Completed, Failed, Cancelled, Expired}")
    case True
    then have t: "r_status run \<in> TERMINAL_RUN_STATUSES"
      by (simp add: TERMINAL_RUN_STATUSES_def)
    show ?thesis
      unfolding defaultCancelRun_def Let_def
      by (simp only: io_bind_Inr [where m = "abort_and_await store execRun ab runId", OF a]
            io_bind_Inr [where m = "getRun store runId", OF getRun_found [OF p f]]
            t True if_True throw_def)
  next
    case False
    then have t: "r_status run \<notin> TERMINAL_RUN_STATUSES"
      by (simp add: TERMINAL_RUN_STATUSES_def)
    show ?thesis
      unfolding defaultCancelRun_def Let_def
      by (simp only: io_bind_Inr [where m = "abort_and_await store execRun ab runId", OF a]
            io_bind_Inr [where m = "getRun store runId", OF getRun_found [OF p f]]
            io_bind_Inr [where m = nowUnix, OF nowUnix_run]
            io_bind_Inr [where m = "updateRun store runId ?u", OF u]
            t False if_False ok_def)
  qed
qed

lemma object_assign_cancelled:
  "object_assign run (no_updates\<lparr>up_status := Some Cancelled, up_cancelled_at := Some (Some t)\<rparr>)
     = run\<lparr>r_status := Cancelled, r_cancelled_at := Some t\<rparr>"
  by (simp add: object_assign_def no_updates_def)


lemma cancel_stored:
  assumes g: "fst (getRun store runId (snd (abort_and_await store execRun ab runId w))) = Inr run"
      and n: "r_status run \<notin> {Completed, Failed, Cancelled, Expired}"
  shows "getRun store runId (snd (defaultCancelRun store execRun ab runId w))
           = (Inr (run\<lparr>r_status := Cancelled,
                       r_cancelled_at :=
                         Some (clock (snd (abort_and_await store execRun ab runId w))
                                 (clock_reads (snd (abort_and_await store execRun ab runId w))))\<rparr>),
              snd (defaultCancelRun store execRun ab runId w))"
proof -
  let ?w1 = "snd (abort_and_await store execRun ab runId w)"
  let ?w2 = "?w1\<lparr>clock_reads := Suc (clock_reads ?w1)\<rparr>"
  from getRun_Inr [OF g] obtain p where
    p: "safePath (runsDir store) runId = Inr p" and f: "run_files ?w1 p = Some run"
    by blast
  have f': "run_files ?w2 p = Some run"
    using f by simp
  show ?thesis
    using n
    by (simp add: cancel_run [OF g] Let_def getRun_after_updateRun [OF p f']
          object_assign_cancelled)
qed

lemma abort_and_await_idle:
  "running_tasks w runId = None \<Longrightarrow> abort_and_await store execRun ab runId w = (Inr (), w)"
  by (simp add: abort_and_await_def)


lemma safePath_demo4:
  "safePath (runsDir demo_store) ''run_nope'' = Inr ''/data/runs/run_nope.json''"
  by (simp add: demo_store_def safePath_def FileAgentStore_def path_join_def normalize_def
        normalizeString_def split_path_def Let_def)

lemma getRun_missing:
  "safePath (runsDir store) runId = Inr p \<Longrightarrow> run_files w p = None \<Longrightarrow>
   getRun store runId w = (Inl (Error (''Run '' @ runId @ '' not found'')), w)"
  by (simp add: getRun_def io_bind_def io_of_def readRunFile_def throw_def)


text \<open>
  Claim C5, as amended.  \<open>cancelRun\<close> first aborts the task of the run, if one is in
  flight, and waits for it: that step always returns and leaves a world \<open>w1\<close>.  For
  every run id whose record \<open>getRun\<close> then finds, \<open>cancelRun\<close> raises an error exactly
  when the status of that record is one of completed, failed, cancelled, expired; the
  error is \<open>Cannot cancel run with status '<s>'\<close> and the world stays \<open>w1\<close> (so the
  stored record is unchanged).  Otherwise it returns a run object with status cancelled
  and \<open>cancelled_at\<close> the current time, and the stored record is the old one with
  exactly these two fields set.
\<close>

theorem cancelRun_raises_iff_terminal:
  assumes a: "abort_and_await store execRun ab runId w = (Inr (), w1)"
      and g: "fst (getRun store runId w1) = Inr run"
  shows "((\<exists>e. fst (defaultCancelRun store execRun ab runId w) = Inl e)
            \<longleftrightarrow> r_status run \<in> {Completed, Failed, Cancelled, Expired})
       \<and> (r_status run \<in> {Completed, Failed, Cancelled, Expired} \<longrightarrow>
            defaultCancelRun store execRun ab runId w
              = (Inl (Error (''Cannot cancel run with status '' @ [CHR 0x27]
                               @ status_name (r_status run) @ [CHR 0x27])), w1))
       \<and> (r_status run \<notin> {Completed, Failed, Cancelled, Expired} \<longrightarrow>
            (\<exists>obj. fst (defaultCancelRun store execRun ab runId w) = Inr obj
               \<and> ro_status obj = Cancelled
               \<and> ro_cancelled_at obj = Some (clock w1 (clock_reads w1))
               \<and> fst (getRun store runId (snd (defaultCancelRun store execRun ab runId w)))
                   = Inr (run\<lparr>r_status := Cancelled,
                              r_cancelled_at := Some (clock w1 (clock_reads w1))\<rparr>)))"
proof -
  have w1: "snd (abort_and_await store execRun ab runId w) = w1"
    using a by simp
  have g': "fst (getRun store runId (snd (abort_and_await store execRun ab runId w))) = Inr run"
    using g w1 by simp
  show ?thesis
  proof (cases "r_status run \<in> {Completed, Failed, Cancelled, Expired}")
    case True
    then show ?thesis
      using w1 by (simp add: cancel_run [OF g'] Let_def)
  next
    case False
    have "fst (defaultCancelRun store execRun ab runId w) \<noteq> Inl e" for e
      using False by (simp add: cancel_run [OF g'] Let_def)
    moreover have "\<exists>obj. fst (defaultCancelRun store execRun ab runId w) = Inr obj
               \<and> ro_status obj = Cancelled
               \<and> ro_cancelled_at obj = Some (clock w1 (clock_reads w1))
               \<and> fst (getRun store runId (snd (defaultCancelRun store execRun ab runId w)))
                   = Inr (run\<lparr>r_status := Cancelled,
                              r_cancelled_at := Some (clock w1 (clock_reads w1))\<rparr>)"
      using False w1
      by (simp add: cancel_stored [OF g' False]) (simp add: cancel_run [OF g'] Let_def)
    ultimately show ?thesis
      using False by blast
  qed
qed

theorem cancelRun_raises_iff_terminal_witness:
  "defaultCancelRun demo_store (\<lambda>_. ([], None)) NotAborted ''run_1'' demo_completed_world
     = (Inl (Error (''Cannot cancel run with status '' @ [CHR 0x27] @ ''completed'' @ [CHR 0x27])),
        demo_completed_world)
   \<and> (\<exists>obj. fst (defaultCancelRun demo_store (\<lambda>_. ([], None)) NotAborted ''run_1'' demo_run_world)
               = Inr obj \<and> ro_status obj = Cancelled \<and> ro_cancelled_at obj = Some 1700000000)
   \<and> fst (getRun demo_store ''run_1''
            (snd (defaultCancelRun demo_store (\<lambda>_. ([], None)) NotAborted ''run_1'' demo_run_world)))
       = Inr (demo_run\<lparr>r_status := Cancelled, r_cancelled_at := Some 1700000000\<rparr>)"
proof -
  let ?exec = "\<lambda>_ :: create_run_input. ([] :: agent_stream_message list, None :: error option)"
  have i1: "abort_and_await demo_store ?exec NotAborted ''run_1'' demo_completed_world
              = (Inr (), demo_completed_world)"
    by (rule abort_and_await_idle) (simp add: demo_completed_world_def demo_world_def)
  have i2: "abort_and_await demo_store ?exec NotAborted ''run_1'' demo_run_world
              = (Inr (), demo_run_world)"
    by (rule abort_and_await_idle) (simp add: demo_run_world_def demo_world_def)
  have g1: "fst (getRun demo_store ''run_1'' demo_completed_world)
              = Inr (demo_run\<lparr>r_status := Completed\<rparr>)"
    by (simp add: getRun_found [OF safePath_demo(2)] demo_completed_world_def)
  have g2: "fst (getRun demo_store ''run_1'' demo_run_world) = Inr demo_run"
    by (simp add: getRun_demo)
  have s2: "r_status demo_run = InProgress"
    by (simp add: demo_run_def)
  have c2: "clock demo_run_world (clock_reads demo_run_world) = 1700000000"
    by (simp add: demo_run_world_def demo_world_def)
  from cancelRun_raises_iff_terminal [OF i1 g1] cancelRun_raises_iff_terminal [OF i2 g2]
  show ?thesis
    by (simp add: s2 c2) blast
qed


text \<open>The claim as stated fails for a run id that names no stored run: \<open>cancelRun\<close>
  raises the error of \<open>getRun\<close>, and no stored status is terminal.\<close>

theorem cancelRun_unknown_run_counterexample:
  "defaultCancelRun demo_store demo_exec NotAborted ''run_nope'' demo_run_world
     = (Inl (Error ''Run run_nope not found''), demo_run_world)
   \<and> fst (getRun demo_store ''run_nope'' demo_run_world) = Inl (Error ''Run run_nope not found'')
   \<and> run_files demo_run_world = [''/data/runs/run_1.json'' \<mapsto> demo_run]
   \<and> r_status demo_run = InProgress"
proof -
  have i: "abort_and_await demo_store demo_exec NotAborted ''run_nope'' demo_run_world
             = (Inr (), demo_run_world)"
    by (rule abort_and_await_idle) (simp add: demo_run_world_def demo_world_def)
  have n: "run_files demo_run_world ''/data/runs/run_nope.json'' = None"
    by (simp add: demo_run_world_def)
  have g: "getRun demo_store ''run_nope'' demo_run_world
             = (Inl (Error ''Run run_nope not found''), demo_run_world)"
    using getRun_missing [OF safePath_demo4 n] by simp
  have "defaultCancelRun demo_store demo_exec NotAborted ''run_nope'' demo_run_world
          = (Inl (Error ''Run run_nope not found''), demo_run_world)"
    unfolding defaultCancelRun_def
    by (simp only:
          io_bind_Inr [where m = "abort_and_await demo_store demo_exec NotAborted ''run_nope''", OF i]
          io_bind_Inl [where m = "getRun demo_store ''run_nope''", OF g])
  moreover have "run_files demo_run_world = [''/data/runs/run_1.json'' \<mapsto> demo_run]"
    by (simp add: demo_run_world_def)
  moreover have "r_status demo_run = InProgress"
    by (simp add: demo_run_def)
  ultimately show ?thesis
    using g by simp
qed






section \<open>Thread histories hold no system message\<close>

lemma keeps_bind:
  assumes "io_keeps I m Q" and "\<And>x. Q x \<Longrightarrow> io_keeps I (f x) R"
  shows "io_keeps I (io_bind m f) R"
  unfolding io_keeps_def
proof (intro allI impI)
  fix w assume w: "I w"
  show "I (snd (io_bind m f w)) \<and> (\<forall>x. fst (io_bind m f w) = Inr x \<longrightarrow> R x)"
  proof (cases "m w")
    case (Pair r w')
    with assms(1) w have i: "I w'" and q: "\<And>x. r = Inr x \<Longrightarrow> Q x"
      by (auto simp add: io_keeps_def)
    show ?thesis
    proof (cases r)
      case (Inl e)
      with Pair i show ?thesis by (simp add: io_bind_def)
    next
      case (Inr x)
      with assms(2) [OF q [OF Inr]] i Pair show ?thesis
        by (simp add: io_bind_def io_keeps_def)
    qed
  qed
qed

lemma keeps_catch:
  assumes "io_keeps I m Q" and "\<And>e. io_keeps I (h e) Q"
  shows "io_keeps I (io_catch m h) Q"
  unfolding io_keeps_def
proof (intro allI impI)
  fix w assume w: "I w"
  show "I (snd (io_catch m h w)) \<and> (\<forall>x. fst (io_catch m h w) = Inr x \<longrightarrow> Q x)"
  proof (cases "m w")
    case (Pair r w')
    with assms(1) w have i: "I w'" and q: "\<And>x. r = Inr x \<Longrightarrow> Q x"
      by (auto simp add: io_keeps_def)
    show ?thesis
    proof (cases r)
      case (Inl e)
      with assms(2) [of e] i Pair show ?thesis
        by (simp add: io_catch_def io_keeps_def)
    next
      case (Inr x)
      with q i Pair show ?thesis by (simp add: io_catch_def)
    qed
  qed
qed

lemma keeps_guarded:
  assumes "io_keeps I m Q" and "\<And>e. io_keeps I (h e) R" and "\<And>x. Q x \<Longrightarrow> io_keeps I (f x) R"
  shows "io_keeps I (guarded h m f) R"
  unfolding io_keeps_def
proof (intro allI impI)
  fix w assume w: "I w"
  show "I (snd (guarded h m f w)) \<and> (\<forall>x. fst (guarded h m f w) = Inr x \<longrightarrow> R x)"
  proof (cases "m w")
    case (Pair r w')
    with assms(1) w have i: "I w'" and q: "\<And>x. r = Inr x \<Longrightarrow> Q x"
      by (auto simp add: io_keeps_def)
    show ?thesis
    proof (cases r)
      case (Inl e)
      with assms(2) [of e] i Pair show ?thesis
        by (simp add: guarded_def io_keeps_def)
    next
      case (Inr x)
      with assms(3) [OF q [OF Inr]] i Pair show ?thesis
        by (simp add: guarded_def io_keeps_def)
    qed
  qed
qed

lemma keeps_finally:
  assumes "io_keeps I m Q" and "io_keeps I c (\<lambda>_. True)"
  shows "io_keeps I (io_finally m c) Q"
  unfolding io_keeps_def
proof (intro allI impI)
  fix w assume w: "I w"
  show "I (snd (io_finally m c w)) \<and> (\<forall>x. fst (io_finally m c w) = Inr x \<longrightarrow> Q x)"
  proof (cases "m w")
    case (Pair r w')
    with assms(1) w have i: "I w'" and q: "\<And>x. r = Inr x \<Longrightarrow> Q x"
      by (auto simp add: io_keeps_def)
    from assms(2) i have "I (snd (c w'))"
      by (simp add: io_keeps_def)
    with Pair q show ?thesis
      by (cases "c w'") (auto simp add: io_finally_def split: sum.splits)
  qed
qed

lemma keeps_ok: "Q x \<Longrightarrow> io_keeps I (ok x) Q"
  by (simp add: io_keeps_def ok_def)

lemma keeps_throw: "io_keeps I (throw e) Q"
  by (simp add: io_keeps_def throw_def)

lemma keeps_weaken: "io_keeps I m Q \<Longrightarrow> io_keeps I m (\<lambda>_. True)"
  by (simp add: io_keeps_def)

text \<open>A step that leaves the thread files alone.\<close>

lemma keeps_threads:
  assumes "\<And>w. thread_files (snd (m w)) = thread_files w"
  shows "io_keeps no_system_messages m (\<lambda>_. True)"
  using assms by (simp add: io_keeps_def no_system_messages_def)

lemma nowUnix_keeps: "io_keeps no_system_messages nowUnix (\<lambda>_. True)"
  by (rule keeps_threads) (simp add: nowUnix_run)

lemma newMsgId_keeps: "io_keeps no_system_messages newMsgId (\<lambda>_. True)"
  by (rule keeps_threads) (simp add: newMsgId_run)

lemma res_write_keeps: "io_keeps no_system_messages (res_write ev d) (\<lambda>_. True)"
  by (rule keeps_threads) (simp add: res_write_def)

lemma res_writeHead_keeps: "io_keeps no_system_messages (res_writeHead st hs) (\<lambda>_. True)"
  by (rule keeps_threads) (simp add: res_writeHead_def)

lemma res_end_keeps: "io_keeps no_system_messages res_end (\<lambda>_. True)"
  by (rule keeps_threads) (simp add: res_end_def)

lemma set_task_keeps: "io_keeps no_system_messages (set_task runId t) (\<lambda>_. True)"
  by (rule keeps_threads) (simp add: set_task_def)

lemma delete_task_keeps: "io_keeps no_system_messages (delete_task runId) (\<lambda>_. True)"
  by (rule keeps_threads) (simp add: delete_task_def)

lemma drain_keeps: "io_keeps no_system_messages (drain gen) (\<lambda>_. True)"
  by (rule keeps_threads) (simp add: drain_def ok_def throw_def split: option.splits)

lemma getRun_keeps: "io_keeps no_system_messages (getRun store runId) (\<lambda>_. True)"
  by (rule keeps_threads) (simp add: getRun_world)

lemma updateRun_threads: "thread_files (snd (updateRun store runId u w)) = thread_files w"
proof (cases "fst (getRun store runId w)")
  case (Inl e)
  then have "getRun store runId w = (Inl e, w)"
    using getRun_world [of store runId w] by (simp add: prod_eq_iff)
  then show ?thesis
    by (simp add: updateRun_def io_bind_def)
next
  case (Inr run)
  from getRun_Inr [OF Inr] obtain p where
    "safePath (runsDir store) runId = Inr p" "run_files w p = Some run"
    by blast
  then show ?thesis
    by (simp add: updateRun_found)
qed

lemma updateRun_keeps: "io_keeps no_system_messages (updateRun store runId u) (\<lambda>_. True)"
  by (rule keeps_threads) (rule updateRun_threads)

lemma createRun_keeps: "io_keeps no_system_messages (createRun store i t c m) (\<lambda>_. True)"
  by (rule keeps_threads) (simp add: createRun_run Let_def split: sum.splits)

lemma extract_keeps:
  "io_keeps no_system_messages (extractFromStreamMessages ms rid)
     (\<lambda>ex. \<forall>m \<in> set (ex_output ex). m_role m = Assistant)"
  by (auto simp add: io_keeps_def extractFromStreamMessages_run no_system_messages_def
        collected_message_def)

lemma input_object_role_in:
  assumes "m \<in> set (map (input_object w tid) (enumerate n hs))"
  shows "\<exists>x \<in> set hs. m_role m = im_role x"
proof -
  from assms obtain i x where "(i, x) \<in> set (enumerate n hs)" and m: "m = input_object w tid (i, x)"
    by auto
  then have "x \<in> set hs"
    by (auto simp add: in_set_enumerate_eq)
  with m show ?thesis
    by (auto simp add: input_object_def)
qed

lemma toInput_keeps:
  "io_keeps no_system_messages (toInputMessageObjects ms tid)
     (\<lambda>objs. \<forall>m \<in> set objs. m_role m = User \<or> m_role m = Assistant)"
proof -
  have h: "im_role x = User \<or> im_role x = Assistant" if "x \<in> set (history_messages ms)" for x
    using that by (cases "im_role x") (auto simp add: history_messages_def)
  have "m_role m = User \<or> m_role m = Assistant"
    if "m \<in> set (map (input_object w tid) (enumerate 0 (history_messages ms)))" for m w
    using input_object_role_in [OF that] h by metis
  then show ?thesis
    by (simp add: io_keeps_def toInputMessageObjects_run no_system_messages_def)
qed

lemma write_thread_keeps:
  assumes "\<forall>m \<in> set (t_messages d). m_role m = User \<or> m_role m = Assistant"
  shows "io_keeps no_system_messages (writeThreadFile p d) (\<lambda>_. True)"
  using assms
  by (auto simp add: io_keeps_def writeThreadFile_run no_system_messages_def split: if_splits)

lemma createThread_keeps: "io_keeps no_system_messages (createThread store md) (\<lambda>_. True)"
  by (auto simp add: io_keeps_def createThread_run no_system_messages_def Let_def
        split: sum.splits if_splits)

lemma resolve_keeps: "io_keeps no_system_messages (resolveThreadId store inp) (\<lambda>_. True)"
  unfolding resolveThreadId_def
  by (auto intro!: keeps_bind [OF createThread_keeps] keeps_ok split: option.splits)

lemma appendMessages_keeps:
  assumes "\<forall>m \<in> set ms. m_role m = User \<or> m_role m = Assistant"
  shows "io_keeps no_system_messages (appendMessages store tid ms) (\<lambda>_. True)"
  unfolding io_keeps_def
proof (intro allI impI conjI)
  fix w assume i: "no_system_messages w"
  show "no_system_messages (snd (appendMessages store tid ms w))"
  proof (cases "fst (getThread store tid w)")
    case (Inl e)
    then show ?thesis
      using i by (simp add: appendMessages_fails)
  next
    case (Inr t)
    from getThread_Inr [OF Inr] obtain p where
      p: "safePath (threadsDir store) tid = Inr p" and f: "thread_files w p = Some t"
      by blast
    from i f have "\<forall>m \<in> set (t_messages t). m_role m = User \<or> m_role m = Assistant"
      by (simp add: no_system_messages_def)
    with assms i show ?thesis
      by (auto simp add: appendMessages_found [OF p f] no_system_messages_def split: if_splits)
  qed
qed simp

lemma assistant_ok: "m_role m = Assistant \<Longrightarrow> m_role m = User \<or> m_role m = Assistant"
  by simp

lemma sync_keeps:
  "io_keeps no_system_messages (defaultSyncRun store execRun inp) (\<lambda>_. True)"
  unfolding defaultSyncRun_def
  apply (rule keeps_bind [OF resolve_keeps])
  apply (rule keeps_bind [OF createRun_keeps])
  apply (rule keeps_catch)
   apply (rule keeps_bind [OF nowUnix_keeps])
   apply (rule keeps_bind [OF updateRun_keeps])
   apply (rule keeps_bind [OF drain_keeps])
   apply (rule keeps_bind [OF extract_keeps])
   apply (rule keeps_bind [OF nowUnix_keeps])
   apply (rule keeps_bind [OF updateRun_keeps])
   apply (rule keeps_bind [OF toInput_keeps])
   apply (rule keeps_bind [OF appendMessages_keeps])
    apply (auto)[1]
   apply (rule keeps_ok, simp)
  apply (rule keeps_bind [OF nowUnix_keeps])
  apply (rule keeps_bind [OF updateRun_keeps])
  apply (rule keeps_throw)
  done

lemma async_drain_keeps: "io_keeps no_system_messages (async_drain ab cs err acc) (\<lambda>_. True)"
proof (rule keeps_threads)
  show "thread_files (snd (async_drain ab cs err acc w)) = thread_files w" for w
    by (induction cs arbitrary: acc) (simp_all add: ok_def throw_def split: option.splits)
qed

lemma async_catch_keeps:
  "io_keeps no_system_messages (async_catch store runId flag e) (\<lambda>_. True)"
  unfolding async_catch_def
  apply (cases flag)
   apply (simp_all add: keeps_ok)
  apply (rule keeps_catch)
   apply (rule keeps_bind [OF nowUnix_keeps])
   apply (rule updateRun_keeps)
  apply (rule keeps_ok, simp)
  done

lemma background_task_keeps:
  "io_keeps no_system_messages (background_task store execRun ab t) (\<lambda>_. True)"
  unfolding background_task_def Let_def
  apply (rule keeps_bind [where Q = "\<lambda>_. True"])
   apply (rule keeps_guarded [where Q = "\<lambda>_. True"])
     apply (rule keeps_bind [OF nowUnix_keeps])
     apply (rule updateRun_keeps)
    apply (rule async_catch_keeps)
   apply (rule keeps_guarded [OF async_drain_keeps])
    apply (rule async_catch_keeps)
   apply (simp only: split: if_split)
   apply (intro conjI impI)
    apply (rule keeps_ok, simp)
   apply (rule keeps_guarded [where Q = "\<lambda>_. True"])
     apply (rule keeps_bind [OF extract_keeps])
     apply (rule keeps_bind [OF nowUnix_keeps])
     apply (rule keeps_bind [OF updateRun_keeps])
     apply (rule keeps_bind [OF toInput_keeps])
     apply (rule appendMessages_keeps)
     apply (auto)[1]
    apply (rule async_catch_keeps)
   apply (rule keeps_ok, simp)
  apply (rule delete_task_keeps)
  done

lemma async_keeps:
  "io_keeps no_system_messages (defaultAsyncRun store inp) (\<lambda>_. True)"
  unfolding defaultAsyncRun_def
  apply (rule keeps_bind [OF resolve_keeps])
  apply (rule keeps_bind [OF createRun_keeps])
  apply (rule keeps_bind [OF set_task_keeps])
  apply (rule keeps_ok, simp)
  done

lemma stream_loop_keeps:
  "io_keeps no_system_messages (stream_loop ab i cs err msgId st) (\<lambda>_. True)"
proof (rule keeps_threads)
  show "thread_files (snd (stream_loop ab i cs err msgId st w)) = thread_files w" for w
  proof (induction cs arbitrary: i st w)
    case Nil
    then show ?case by (simp add: ok_def throw_def split: option.splits)
  next
    case (Cons c cs)
    obtain a pt ct hu where st: "st = (a, pt, ct, hu)"
      by (cases st) auto
    show ?case
      unfolding st
      by (cases "message c")
         (simp_all add: ok_def io_bind_def res_write_def Cons.IH Let_def)
  qed
qed

lemma stream_try_keeps:
  assumes "m_role msgObj = Assistant"
  shows "io_keeps no_system_messages (stream_try store gen ab inp threadId run runObj msgObj msgId)
     (\<lambda>_. True)"
  unfolding stream_try_def Let_def
  apply (rule keeps_bind [OF stream_loop_keeps])
  apply (simp only: split_paired_all prod.case)
  apply (rule keeps_bind [OF res_write_keeps])
  apply (rule keeps_bind [OF nowUnix_keeps])
  apply (rule keeps_bind [OF updateRun_keeps])
  apply (rule keeps_bind [OF toInput_keeps])
  apply (rule keeps_bind [OF appendMessages_keeps])
   apply (use assms in auto)[1]
  apply (rule keeps_bind [OF nowUnix_keeps])
  apply (rule res_write_keeps)
  done

lemma stream_catch_keeps:
  "io_keeps no_system_messages (stream_catch store run runObj err) (\<lambda>_. True)"
  unfolding stream_catch_def
  apply (rule keeps_bind [OF nowUnix_keeps])
  apply (rule keeps_bind [where Q = "\<lambda>_. True"])
   apply (rule keeps_catch [OF updateRun_keeps])
   apply (rule keeps_ok, simp)
  apply (rule res_write_keeps)
  done

lemma stream_finally_keeps: "io_keeps no_system_messages stream_finally (\<lambda>_. True)"
  unfolding stream_finally_def
  by (rule keeps_bind [OF res_write_keeps]) (rule res_end_keeps)

lemma stream_keeps:
  "io_keeps no_system_messages (defaultStreamRun store execRun ab ctx inp) (\<lambda>_. True)"
proof (cases ctx)
  case False
  then show ?thesis
    by (simp only: defaultStreamRun_def not_False_eq_True if_True keeps_throw)
next
  case True
  show ?thesis
    apply (simp only: defaultStreamRun_def True not_True_eq_False if_False Let_def)
    apply (rule keeps_bind [OF res_writeHead_keeps])
    apply (rule keeps_bind [OF resolve_keeps])
    apply (rule keeps_bind [OF createRun_keeps])
    apply (rule keeps_bind [OF res_write_keeps])
    apply (rule keeps_bind [OF nowUnix_keeps])
    apply (rule keeps_bind [OF updateRun_keeps])
    apply (rule keeps_bind [OF res_write_keeps])
    apply (rule keeps_bind [OF newMsgId_keeps])
    apply (rule keeps_bind [OF nowUnix_keeps])
    apply (rule keeps_bind [OF res_write_keeps])
    apply (rule keeps_finally [OF _ stream_finally_keeps])
    apply (rule keeps_catch [OF stream_try_keeps stream_catch_keeps])
    apply simp
    done
qed

lemma abort_and_await_keeps:
  "io_keeps no_system_messages (abort_and_await store execRun ab runId) (\<lambda>_. True)"
  unfolding io_keeps_def
proof (intro allI impI conjI)
  fix w assume i: "no_system_messages w"
  show "no_system_messages (snd (abort_and_await store execRun ab runId w))"
  proof (cases "running_tasks w runId")
    case None
    with i show ?thesis by (simp add: abort_and_await_def)
  next
    case (Some t)
    have "io_keeps no_system_messages
            (io_catch (background_task store execRun ab t) (\<lambda>_. ok ())) (\<lambda>_. True)"
      by (rule keeps_catch [OF background_task_keeps]) (rule keeps_ok, simp)
    with i Some show ?thesis
      by (simp add: abort_and_await_def io_keeps_def)
  qed
qed simp

lemma cancel_keeps:
  "io_keeps no_system_messages (defaultCancelRun store execRun ab runId) (\<lambda>_. True)"
  unfolding defaultCancelRun_def
  apply (rule keeps_bind [OF abort_and_await_keeps])
  apply (rule keeps_bind [OF getRun_keeps])
  apply (simp only: split: if_split)
  apply (intro conjI impI)
   apply (rule keeps_throw)
  apply (rule keeps_bind [OF nowUnix_keeps])
  apply (rule keeps_bind [OF updateRun_keeps])
  apply (rule keeps_ok, simp)
  done


text \<open>
  Claim C4.  The messages that \<open>toInputMessageObjects\<close> builds from any list of input
  messages have role \<open>user\<close> or \<open>assistant\<close>: the input messages with role
  \<open>system\<close> are dropped, whatever their content.  So when no thread file holds a
  \<open>system\<close> message, none does after \<open>syncRun\<close>, \<open>streamRun\<close>, \<open>asyncRun\<close>, the
  background task of \<open>asyncRun\<close> or \<open>cancelRun\<close> (which waits for that task), whether
  the handler returns or throws.
\<close>

theorem handlers_append_no_system_messages:
  assumes "no_system_messages w"
  shows "no_system_messages (snd (defaultSyncRun store execRun inp w))
       \<and> no_system_messages (snd (defaultStreamRun store execRun ab ctx inp w))
       \<and> no_system_messages (snd (defaultAsyncRun store inp w))
       \<and> no_system_messages (snd (background_task store execRun ab t w))
       \<and> no_system_messages (snd (defaultCancelRun store execRun ab runId w))
       \<and> (\<forall>objs. fst (toInputMessageObjects (input_messages inp) tid w) = Inr objs \<longrightarrow>
             (\<forall>m \<in> set objs. m_role m = User \<or> m_role m = Assistant))"
proof -
  have k: "no_system_messages (snd (m w))" if "io_keeps no_system_messages m Q" for m :: "'a io" and Q
    using that assms by (simp add: io_keeps_def)
  have "\<forall>m \<in> set objs. m_role m = User \<or> m_role m = Assistant"
    if "fst (toInputMessageObjects (input_messages inp) tid w) = Inr objs" for objs
    using toInput_keeps [of "input_messages inp" tid] that assms
    unfolding io_keeps_def by blast
  then show ?thesis
    using k [OF sync_keeps] k [OF stream_keeps] k [OF async_keeps] k [OF background_task_keeps]
      k [OF cancel_keeps]
    by simp
qed


theorem handlers_append_no_system_messages_witness:
  "no_system_messages demo_world
   \<and> no_system_messages (snd (defaultSyncRun demo_store demo_exec demo_input demo_world))
   \<and> no_system_messages
        (snd (defaultStreamRun demo_store demo_exec NotAborted True demo_input demo_world))
   \<and> map im_role (input_messages demo_input) = [System, User]
   \<and> (\<exists>objs. fst (toInputMessageObjects (input_messages demo_input) (Some ''thread_a'') demo_world)
                = Inr objs
            \<and> length objs = 1
            \<and> (\<forall>m \<in> set objs. m_role m = User \<or> m_role m = Assistant))"
proof -
  have i: "no_system_messages demo_world"
    by (simp add: no_system_messages_def demo_world_def)
  have h: "history_messages (input_messages demo_input)
            = [\<lparr>im_role = User, im_content = InputString ''Hi'', im_metadata = None\<rparr>]"
    by (simp add: history_messages_def demo_input_def)
  obtain objs where
    o: "fst (toInputMessageObjects (input_messages demo_input) (Some ''thread_a'') demo_world)
          = Inr objs" and l: "length objs = 1"
    by (simp add: toInputMessageObjects_run h)
  from handlers_append_no_system_messages
         [OF i, of demo_store demo_exec demo_input NotAborted True _ _ "Some ''thread_a''"] o l i
  show ?thesis
    by (simp add: demo_input_def)
qed


section \<open>The streaming run\<close>

lemma aborted_at_mono: "aborted_at ab i \<Longrightarrow> i \<le> j \<Longrightarrow> aborted_at ab j"
  by (cases ab) simp_all

lemma io_catch_Inr: "m w = (Inr x, w') \<Longrightarrow> io_catch m h w = (Inr x, w')"
  by (simp add: io_catch_def)

lemma io_catch_Inl: "m w = (Inl e, w') \<Longrightarrow> io_catch m h w = h e w'"
  by (simp add: io_catch_def)

lemma io_finally_run:
  "body w = (r, w') \<Longrightarrow> cleanup w' = (Inr u, w'') \<Longrightarrow> io_finally body cleanup w = (r, w'')"
  by (simp add: io_finally_def)

lemma res_write_run:
  "res_write ev d w = (Inr (), w\<lparr>res_body := res_body w @ [\<lparr>event_name = ev, payload = d\<rparr>]\<rparr>)"
  by (simp add: res_write_def)

lemma stream_loop_run:
  assumes "\<not> aborted_at ab (i + length cs)"
  shows "stream_loop ab i cs None msgId (acc, pt, ct, hu) w =
     (Inr (acc @ concat (map (\<lambda>m. toContentBlocks (Some m)) (present_messages cs)),
           pt + sum_list (map usage_prompt cs),
           ct + sum_list (map usage_completion cs),
           hu \<or> (\<exists>c \<in> set cs. usage c \<noteq> None)),
      w\<lparr>res_body := res_body w @ map (delta_frame msgId) (present_messages cs)\<rparr>)"
  using assms
proof (induction cs arbitrary: i acc pt ct hu w)
  case Nil
  then show ?case by (simp add: ok_def present_messages_def)
next
  case (Cons c cs)
  have n: "\<not> aborted_at ab i"
    using Cons.prems aborted_at_mono [of ab i "i + length (c # cs)"] by auto
  have n': "\<not> aborted_at ab (Suc i + length cs)"
    using Cons.prems by simp
  show ?case
  proof (cases "message c")
    case None
    have pm: "present_messages (c # cs) = present_messages cs"
      using None by (simp add: present_messages_def)
    show ?thesis
      using None n
      by (cases "usage c") (simp_all add: pm Cons.IH [OF n'] usage_sums)
  next
    case (Some m)
    have pm: "present_messages (c # cs) = m # present_messages cs"
      using Some by (simp add: present_messages_def)
    let ?w' = "w\<lparr>res_body := res_body w @ [delta_frame msgId m]\<rparr>"
    let ?acc' = "acc @ toContentBlocks (Some m)"
    have step: "stream_loop ab i (c # cs) None msgId (acc, pt, ct, hu) w =
       stream_loop ab (Suc i) cs None msgId
         (case usage c of
            Some u \<Rightarrow>
              (?acc',
               pt + (case prompt_tokens u of Some n \<Rightarrow> n | None \<Rightarrow> 0),
               ct + (case completion_tokens u of Some n \<Rightarrow> n | None \<Rightarrow> 0),
               True)
          | None \<Rightarrow> (?acc', pt, ct, hu)) ?w'"
      using Some n
      by (cases "usage c")
         (simp_all add: io_bind_def res_write_def ok_def delta_frame_def Let_def
            del: toContentBlocks.simps)
    show ?thesis
      unfolding step
      by (cases "usage c") (simp_all add: Cons.IH [OF n'] pm usage_sums)
  qed
qed

lemma updateRun_res_body: "res_body (snd (updateRun store runId u w)) = res_body w"
proof (cases "fst (getRun store runId w)")
  case (Inl e)
  then have "getRun store runId w = (Inl e, w)"
    using getRun_world [of store runId w] by (simp add: prod_eq_iff)
  then show ?thesis
    by (simp add: updateRun_def io_bind_def)
next
  case (Inr run)
  from getRun_Inr [OF Inr] obtain p where
    "safePath (runsDir store) runId = Inr p" "run_files w p = Some run"
    by blast
  then show ?thesis
    by (simp add: updateRun_found)
qed

lemma resolve_res_body: "res_body (snd (resolveThreadId store inp w)) = res_body w"
proof -
  have "res_body (snd (io_bind (createThread store None) (\<lambda>thread. ok (t_id thread)) w))
          = res_body w"
    by (simp add: io_bind_def createThread_run ok_def Let_def split: sum.splits)
  then show ?thesis
    by (simp add: resolveThreadId_def ok_def split: option.splits)
qed

lemma stream_finally_run:
  "stream_finally w
     = (Inr (), w\<lparr>res_body := res_body w @ [\<lparr>event_name = ''done'', payload = DoneData\<rparr>],
                 res_ended := True\<rparr>)"
  by (simp add: stream_finally_def io_bind_def res_write_def res_end_def)

lemma stream_catch_run:
  "\<exists>w' d. stream_catch store run runObj err w = (Inr (), w')
         \<and> res_body w' = res_body w @ [\<lparr>event_name = ''thread.run.failed'', payload = RunData d\<rparr>]"
proof -
  let ?w1 = "w\<lparr>clock_reads := Suc (clock_reads w)\<rparr>"
  let ?u = "no_updates\<lparr>up_status := Some Failed, up_last_error := Some (Some (exec_error err)),
                       up_failed_at := Some (Some (clock w (clock_reads w)))\<rparr>"
  let ?c = "io_catch (updateRun store (r_id run) ?u) (\<lambda>_. ok ())"
  have c: "?c ?w1 = (Inr (), snd (updateRun store (r_id run) ?u ?w1))"
    by (cases "updateRun store (r_id run) ?u ?w1")
       (auto simp add: io_catch_def ok_def split: sum.splits)
  have b: "res_body (snd (updateRun store (r_id run) ?u ?w1)) = res_body w"
    by (simp add: updateRun_res_body)
  show ?thesis
    unfolding stream_catch_def
    by (simp only: io_bind_Inr [where m = nowUnix, OF nowUnix_run]
          io_bind_Inr [where m = ?c, OF c] res_write_run b) simp
qed

text \<open>The \<open>try\<close> block up to \<open>appendMessages\<close>.\<close>

lemma stream_try_run:
  assumes p: "safePath (runsDir store) (r_id run) = Inr p" and f: "run_files w p = Some r0"
      and g: "snd gen = None" and a: "\<not> aborted_at ab (length (fst gen))"
  shows "\<exists>wI d1 objs r1.
     stream_try store gen ab inp threadId run runObj msgObj msgId w
       = io_bind (appendMessages store threadId objs) (\<lambda>_.
           io_bind nowUnix (\<lambda>completedAt'.
             res_write ''thread.run.completed'' (RunData (d1 completedAt')))) wI
     \<and> res_body wI = res_body w @ map (delta_frame msgId) (present_messages (fst gen))
                       @ [\<lparr>event_name = ''thread.message.completed'',
                           payload = MessageData
                             (msgObj\<lparr>m_status := MsgCompleted,
                                     m_content := concat (map (\<lambda>m. toContentBlocks (Some m))
                                                     (present_messages (fst gen)))\<rparr>)\<rparr>]
     \<and> thread_files wI = thread_files w \<and> run_files wI p = Some r1"
proof -
  let ?acc = "concat (map (\<lambda>m. toContentBlocks (Some m)) (present_messages (fst gen)))"
  let ?pt = "sum_list (map usage_prompt (fst gen))"
  let ?ct = "sum_list (map usage_completion (fst gen))"
  let ?hu = "\<exists>c \<in> set (fst gen). usage c \<noteq> None"
  let ?msgObj = "msgObj\<lparr>m_status := MsgCompleted, m_content := ?acc\<rparr>"
  let ?output = "if ?acc \<noteq> [] then [?msgObj] else []"
  let ?usage = "if ?hu then Some \<lparr>u_prompt_tokens = ?pt, u_completion_tokens = ?ct,
                                   u_total_tokens = ?pt + ?ct\<rparr> else None"
  define wL where "wL = w\<lparr>res_body := res_body w @ map (delta_frame msgId) (present_messages (fst gen))\<rparr>"
  have s1: "stream_loop ab 0 (fst gen) (snd gen) msgId ([], 0, 0, False) w
              = (Inr (?acc, ?pt, ?ct, ?hu), wL)"
    unfolding g wL_def using stream_loop_run [of ab 0 "fst gen" msgId "[]" 0 0 False w] a
    by simp
  define wM where "wM = wL\<lparr>res_body := res_body wL @ [\<lparr>event_name = ''thread.message.completed'',
                           payload = MessageData ?msgObj\<rparr>]\<rparr>"
  have s2: "res_write ''thread.message.completed'' (MessageData ?msgObj) wL = (Inr (), wM)"
    by (simp add: res_write_run wM_def)
  define ca where "ca = clock wM (clock_reads wM)"
  define wN where "wN = wM\<lparr>clock_reads := Suc (clock_reads wM)\<rparr>"
  have s3: "nowUnix wM = (Inr ca, wN)"
    by (simp add: nowUnix_run ca_def wN_def)
  have fN: "run_files wN p = Some r0" and tN: "thread_files wN = thread_files w"
    and bN: "res_body wN = res_body w @ map (delta_frame msgId) (present_messages (fst gen))
                       @ [\<lparr>event_name = ''thread.message.completed'',
                           payload = MessageData ?msgObj\<rparr>]"
    using f by (simp_all add: wN_def wM_def wL_def)
  let ?u = "no_updates\<lparr>up_status := Some Completed, up_output := Some (Some ?output),
                       up_usage := Some ?usage, up_completed_at := Some (Some ca)\<rparr>"
  define wU where "wU = snd (updateRun store (r_id run) ?u wN)"
  have s4: "updateRun store (r_id run) ?u wN = (Inr (), wU)"
    and fU: "run_files wU p = Some (object_assign r0 ?u)"
    and tU: "thread_files wU = thread_files w"
    and bU: "res_body wU = res_body wN"
    using updateRun_step [OF p fN, of ?u] tN by (simp_all add: wU_def)
  define ins where "ins = map (input_object wU (Some threadId))
                           (enumerate 0 (history_messages (input_messages inp)))"
  define wI where "wI = snd (toInputMessageObjects (input_messages inp) (Some threadId) wU)"
  have s5: "toInputMessageObjects (input_messages inp) (Some threadId) wU = (Inr ins, wI)"
    and fI: "run_files wI p = Some (object_assign r0 ?u)"
    and tI: "thread_files wI = thread_files w"
    and bI: "res_body wI = res_body wN"
    using fU tU bU by (simp_all add: ins_def wI_def toInputMessageObjects_run)
  define d1 where "d1 = (\<lambda>t. runObj\<lparr>ro_status := Completed, ro_completed_at := Some t,
                                 ro_usage := ?usage, ro_output := Some ?output\<rparr>)"
  have "stream_try store gen ab inp threadId run runObj msgObj msgId w
       = io_bind (appendMessages store threadId (ins @ ?output)) (\<lambda>_.
           io_bind nowUnix (\<lambda>completedAt'.
             res_write ''thread.run.completed'' (RunData (d1 completedAt')))) wI"
    unfolding stream_try_def Let_def d1_def
    by (simp only: io_bind_Inr [where m = "stream_loop ab 0 (fst gen) (snd gen) msgId ([], 0, 0, False)", OF s1]
          prod.case
          io_bind_Inr [where m = "res_write ''thread.message.completed'' (MessageData ?msgObj)", OF s2]
          io_bind_Inr [where m = nowUnix, OF s3]
          io_bind_Inr [where m = "updateRun store (r_id run) ?u", OF s4]
          io_bind_Inr [where m = "toInputMessageObjects (input_messages inp) (Some threadId)", OF s5])
  moreover have "res_body wI = res_body w @ map (delta_frame msgId) (present_messages (fst gen))
                       @ [\<lparr>event_name = ''thread.message.completed'',
                           payload = MessageData ?msgObj\<rparr>]"
    using bI bN by simp
  ultimately have "stream_try store gen ab inp threadId run runObj msgObj msgId w
       = io_bind (appendMessages store threadId (ins @ ?output)) (\<lambda>_.
           io_bind nowUnix (\<lambda>completedAt'.
             res_write ''thread.run.completed'' (RunData (d1 completedAt')))) wI
     \<and> res_body wI = res_body w @ map (delta_frame msgId) (present_messages (fst gen))
                       @ [\<lparr>event_name = ''thread.message.completed'',
                           payload = MessageData ?msgObj\<rparr>]
     \<and> thread_files wI = thread_files w \<and> run_files wI p = Some (object_assign r0 ?u)"
    using tI fI by simp
  then show ?thesis
    by - (rule exI, rule exI, rule exI, rule exI, assumption)
qed

lemma appendMessages_res_body:
  "res_body (snd (appendMessages store tid ms w)) = res_body w"
proof (cases "fst (getThread store tid w)")
  case (Inl e)
  then show ?thesis by (simp add: appendMessages_fails)
next
  case (Inr t)
  from getThread_Inr [OF Inr] obtain p where
    "safePath (threadsDir store) tid = Inr p" "thread_files w p = Some t"
    by blast
  then show ?thesis by (simp add: appendMessages_found)
qed

lemma stream_try_success:
  assumes p: "safePath (runsDir store) (r_id run) = Inr p" and f: "run_files w p = Some r0"
      and g: "snd gen = None" and a: "\<not> aborted_at ab (length (fst gen))"
      and t: "fst (getThread store threadId w) = Inr before"
  shows "\<exists>w' d1 d2.
     stream_try store gen ab inp threadId run runObj msgObj msgId w = (Inr (), w')
     \<and> res_body w' = res_body w @ map (delta_frame msgId) (present_messages (fst gen))
                       @ [\<lparr>event_name = ''thread.message.completed'', payload = MessageData d1\<rparr>,
                          \<lparr>event_name = ''thread.run.completed'', payload = RunData d2\<rparr>]"
proof -
  from stream_try_run [OF p f g a] obtain wI d1 objs r1 where
    e: "stream_try store gen ab inp threadId run runObj msgObj msgId w
       = io_bind (appendMessages store threadId objs) (\<lambda>_.
           io_bind nowUnix (\<lambda>completedAt'.
             res_write ''thread.run.completed'' (RunData (d1 completedAt')))) wI"
    and b: "res_body wI = res_body w @ map (delta_frame msgId) (present_messages (fst gen))
                       @ [\<lparr>event_name = ''thread.message.completed'',
                           payload = MessageData
                             (msgObj\<lparr>m_status := MsgCompleted,
                                     m_content := concat (map (\<lambda>m. toContentBlocks (Some m))
                                                     (present_messages (fst gen)))\<rparr>)\<rparr>]"
    and tf: "thread_files wI = thread_files w"
    by blast
  have "fst (getThread store threadId wI) = Inr before"
    using t getThread_cong [OF tf] by simp
  from getThread_Inr [OF this] obtain pt where
    pt: "safePath (threadsDir store) threadId = Inr pt" and ft: "thread_files wI pt = Some before"
    by blast
  define wA where "wA = snd (appendMessages store threadId objs wI)"
  have s6: "appendMessages store threadId objs wI = (Inr (), wA)"
    by (simp add: wA_def appendMessages_found [OF pt ft])
  have bA: "res_body wA = res_body wI"
    by (simp add: wA_def appendMessages_res_body)
  have "stream_try store gen ab inp threadId run runObj msgObj msgId w
          = (Inr (), wA\<lparr>clock_reads := Suc (clock_reads wA),
                        res_body := res_body wA @ [\<lparr>event_name = ''thread.run.completed'',
                             payload = RunData (d1 (clock wA (clock_reads wA)))\<rparr>]\<rparr>)"
    unfolding e
    by (simp only: io_bind_Inr [where m = "appendMessages store threadId objs", OF s6]
          io_bind_Inr [where m = nowUnix, OF nowUnix_run] res_write_run) simp
  then show ?thesis
    using bA b by simp
qed

lemma stream_try_thread_missing:
  assumes p: "safePath (runsDir store) (r_id run) = Inr p" and f: "run_files w p = Some r0"
      and g: "snd gen = None" and a: "\<not> aborted_at ab (length (fst gen))"
      and t: "fst (getThread store threadId w) = Inl e"
  shows "\<exists>w' d1.
     stream_try store gen ab inp threadId run runObj msgObj msgId w = (Inl e, w')
     \<and> res_body w' = res_body w @ map (delta_frame msgId) (present_messages (fst gen))
                       @ [\<lparr>event_name = ''thread.message.completed'', payload = MessageData d1\<rparr>]"
proof -
  from stream_try_run [OF p f g a] obtain wI d1 objs r1 where
    e: "stream_try store gen ab inp threadId run runObj msgObj msgId w
       = io_bind (appendMessages store threadId objs) (\<lambda>_.
           io_bind nowUnix (\<lambda>completedAt'.
             res_write ''thread.run.completed'' (RunData (d1 completedAt')))) wI"
    and b: "res_body wI = res_body w @ map (delta_frame msgId) (present_messages (fst gen))
                       @ [\<lparr>event_name = ''thread.message.completed'',
                           payload = MessageData
                             (msgObj\<lparr>m_status := MsgCompleted,
                                     m_content := concat (map (\<lambda>m. toContentBlocks (Some m))
                                                     (present_messages (fst gen)))\<rparr>)\<rparr>]"
    and tf: "thread_files wI = thread_files w"
    by blast
  have "fst (getThread store threadId wI) = Inl e"
    using t getThread_cong [OF tf] by simp
  then have s6: "appendMessages store threadId objs wI = (Inl e, wI)"
    by (rule appendMessages_fails)
  have "stream_try store gen ab inp threadId run runObj msgObj msgId w = (Inl e, wI)"
    unfolding e
    by (rule io_bind_Inl [where m = "appendMessages store threadId objs", OF s6])
  then show ?thesis
    using b by simp
qed

lemma stream_prefix:
  assumes r: "resolveThreadId store inp (snd (res_writeHead 200 sse_headers w)) = (Inr threadId, w1)"
      and c: "createRun store (input_messages inp) (Some threadId) (config inp) (metadata inp) w1
                = (Inr run, w2)"
  shows "\<exists>runObj msgObj msgId wS d1 d2 d3 p r1.
           defaultStreamRun store execRun ab True inp w
             = io_finally
                 (io_catch (stream_try store (execRun inp) ab inp threadId run runObj msgObj msgId)
                    (stream_catch store run runObj))
                 stream_finally wS
         \<and> res_body wS = res_body w @ [\<lparr>event_name = ''thread.run.created'', payload = RunData d1\<rparr>,
                                        \<lparr>event_name = ''thread.run.in_progress'', payload = RunData d2\<rparr>,
                                        \<lparr>event_name = ''thread.message.created'', payload = MessageData d3\<rparr>]
         \<and> safePath (runsDir store) (r_id run) = Inr p \<and> run_files wS p = Some r1
         \<and> thread_files wS = thread_files w1"
proof -
  define w0 where "w0 = snd (res_writeHead 200 sse_headers w)"
  have s0: "res_writeHead 200 sse_headers w = (Inr (), w0)" and b0: "res_body w0 = res_body w"
    by (simp_all add: w0_def res_writeHead_def)
  have r': "resolveThreadId store inp w0 = (Inr threadId, w1)"
    using r by (simp add: w0_def)
  have b1: "res_body w1 = res_body w"
    using resolve_res_body [of store inp w0] r' b0 by simp
  from createRun_Inr [OF c] obtain p where
    p: "safePath (runsDir store) (r_id run) = Inr p" and f2: "run_files w2 p = Some run"
    and t2: "thread_files w2 = thread_files w1" and b2: "res_body w2 = res_body w"
    using b1 by auto
  let ?rid = "r_id run"
  let ?runObj = "\<lparr>ro_id = r_id run, ro_object = ''thread.run'',
                      ro_created_at = r_created_at run, ro_thread_id = Some threadId,
                      ro_status = Queued, ro_last_error = None, ro_started_at = None,
                      ro_completed_at = None, ro_cancelled_at = None, ro_failed_at = None,
                      ro_usage = None, ro_metadata = r_metadata run, ro_output = None,
                      ro_config = None\<rparr>"
  define w3 where "w3 = w2\<lparr>res_body := res_body w2 @ [\<lparr>event_name = ''thread.run.created'',
                                                      payload = RunData ?runObj\<rparr>]\<rparr>"
  have s3: "res_write ''thread.run.created'' (RunData ?runObj) w2 = (Inr (), w3)"
    by (simp add: res_write_run w3_def)
  define sa where "sa = clock w3 (clock_reads w3)"
  define w4 where "w4 = w3\<lparr>clock_reads := Suc (clock_reads w3)\<rparr>"
  have s4: "nowUnix w3 = (Inr sa, w4)"
    by (simp add: nowUnix_run sa_def w4_def)
  have f4: "run_files w4 p = Some run" and t4: "thread_files w4 = thread_files w1"
    and b4: "res_body w4 = res_body w @ [\<lparr>event_name = ''thread.run.created'',
                                           payload = RunData ?runObj\<rparr>]"
    using f2 t2 b2 by (simp_all add: w4_def w3_def)
  let ?runObj' = "?runObj\<lparr>ro_status := InProgress, ro_started_at := Some sa\<rparr>"
  let ?u1 = "no_updates\<lparr>up_status := Some InProgress, up_started_at := Some (Some sa)\<rparr>"
  define w5 where "w5 = snd (updateRun store ?rid ?u1 w4)"
  have s5: "updateRun store ?rid ?u1 w4 = (Inr (), w5)"
    and f5: "run_files w5 p = Some (object_assign run ?u1)"
    and t5: "thread_files w5 = thread_files w1"
    and b5: "res_body w5 = res_body w4"
    using updateRun_step [OF p f4, of ?u1] t4 by (simp_all add: w5_def)
  define w6 where "w6 = w5\<lparr>res_body := res_body w5 @ [\<lparr>event_name = ''thread.run.in_progress'',
                                                      payload = RunData ?runObj'\<rparr>]\<rparr>"
  have s6: "res_write ''thread.run.in_progress'' (RunData ?runObj') w5 = (Inr (), w6)"
    by (simp add: res_write_run w6_def)
  define msgId where "msgId = ''msg_'' @ uuid_source w6 (uuid_count w6)"
  define w7 where "w7 = w6\<lparr>uuid_count := Suc (uuid_count w6)\<rparr>"
  have s7: "newMsgId w6 = (Inr msgId, w7)"
    by (simp add: newMsgId_run msgId_def w7_def)
  define cr where "cr = clock w7 (clock_reads w7)"
  define w8 where "w8 = w7\<lparr>clock_reads := Suc (clock_reads w7)\<rparr>"
  have s8: "nowUnix w7 = (Inr cr, w8)"
    by (simp add: nowUnix_run cr_def w8_def)
  let ?msgObj = "\<lparr>m_id = msgId, m_object = ''thread.message'', m_created_at = cr,
                      m_thread_id = None, m_run_id = Some (r_id run), m_role = Assistant,
                      m_status = MsgInProgress, m_content = [], m_metadata = None\<rparr>"
  define w9 where "w9 = w8\<lparr>res_body := res_body w8 @ [\<lparr>event_name = ''thread.message.created'',
                                                      payload = MessageData ?msgObj\<rparr>]\<rparr>"
  have s9: "res_write ''thread.message.created'' (MessageData ?msgObj) w8 = (Inr (), w9)"
    by (simp add: res_write_run w9_def)
  have f9: "run_files w9 p = Some (object_assign run ?u1)" and t9: "thread_files w9 = thread_files w1"
    and b9: "res_body w9 = res_body w @ [\<lparr>event_name = ''thread.run.created'',
                                           payload = RunData ?runObj\<rparr>,
                                         \<lparr>event_name = ''thread.run.in_progress'',
                                           payload = RunData ?runObj'\<rparr>,
                                         \<lparr>event_name = ''thread.message.created'',
                                           payload = MessageData ?msgObj\<rparr>]"
    using f5 t5 b5 b4 by (simp_all add: w9_def w8_def w7_def w6_def)
  have "defaultStreamRun store execRun ab True inp w
             = io_finally
                 (io_catch (stream_try store (execRun inp) ab inp threadId run ?runObj' ?msgObj msgId)
                    (stream_catch store run ?runObj'))
                 stream_finally w9"
    unfolding defaultStreamRun_def Let_def
    by (simp only: not_True_eq_False if_False
          io_bind_Inr [where m = "res_writeHead 200 sse_headers", OF s0]
          io_bind_Inr [where m = "resolveThreadId store inp", OF r']
          io_bind_Inr [where m = "createRun store (input_messages inp) (Some threadId) (config inp)
             (metadata inp)", OF c]
          io_bind_Inr [where m = "res_write ''thread.run.created'' (RunData ?runObj)", OF s3]
          io_bind_Inr [where m = nowUnix, OF s4]
          io_bind_Inr [where m = "updateRun store ?rid ?u1", OF s5]
          io_bind_Inr [where m = "res_write ''thread.run.in_progress'' (RunData ?runObj')", OF s6]
          io_bind_Inr [where m = newMsgId, OF s7]
          io_bind_Inr [where m = nowUnix, OF s8]
          io_bind_Inr [where m = "res_write ''thread.message.created'' (MessageData ?msgObj)", OF s9])
  with b9 p f9 t9 show ?thesis
    by blast
qed

lemma delta_frames_names:
  "map event_name (map (delta_frame msgId) ms) = replicate (length ms) ''thread.message.delta''"
  by (induction ms) (simp_all add: delta_frame_def)

lemma delta_contents_append: "delta_contents (xs @ ys) = delta_contents xs @ delta_contents ys"
  by (simp add: delta_contents_def)

lemma delta_contents_frames:
  "delta_contents (map (delta_frame msgId) ms) = map (\<lambda>m. toContentBlocks (Some m)) ms"
  by (induction ms) (simp_all add: delta_contents_def delta_frame_def)

lemma stream_success:
  assumes r: "resolveThreadId store inp (snd (res_writeHead 200 sse_headers w)) = (Inr threadId, w1)"
      and c: "createRun store (input_messages inp) (Some threadId) (config inp) (metadata inp) w1
                = (Inr run, w2)"
      and t: "fst (getThread store threadId w1) = Inr thread"
      and g: "snd (execRun inp) = None"
      and a: "\<not> aborted_at ab (length (fst (execRun inp)))"
  shows "\<exists>w' msgId d1 d2 d3 d4 d5.
           defaultStreamRun store execRun ab True inp w = (Inr (), w')
         \<and> res_body w' = res_body w
              @ [\<lparr>event_name = ''thread.run.created'', payload = RunData d1\<rparr>,
                 \<lparr>event_name = ''thread.run.in_progress'', payload = RunData d2\<rparr>,
                 \<lparr>event_name = ''thread.message.created'', payload = MessageData d3\<rparr>]
              @ map (delta_frame msgId) (present_messages (fst (execRun inp)))
              @ [\<lparr>event_name = ''thread.message.completed'', payload = MessageData d4\<rparr>,
                 \<lparr>event_name = ''thread.run.completed'', payload = RunData d5\<rparr>,
                 \<lparr>event_name = ''done'', payload = DoneData\<rparr>]"
proof -
  from stream_prefix [where execRun = execRun and ab = ab, OF r c]
  obtain runObj msgObj msgId wS d1 d2 d3 p r1 where
    e: "defaultStreamRun store execRun ab True inp w
             = io_finally
                 (io_catch (stream_try store (execRun inp) ab inp threadId run runObj msgObj msgId)
                    (stream_catch store run runObj))
                 stream_finally wS"
    and b: "res_body wS = res_body w @ [\<lparr>event_name = ''thread.run.created'', payload = RunData d1\<rparr>,
                                        \<lparr>event_name = ''thread.run.in_progress'', payload = RunData d2\<rparr>,
                                        \<lparr>event_name = ''thread.message.created'', payload = MessageData d3\<rparr>]"
    and p: "safePath (runsDir store) (r_id run) = Inr p" and f: "run_files wS p = Some r1"
    and tf: "thread_files wS = thread_files w1"
    by blast
  have t': "fst (getThread store threadId wS) = Inr thread"
    using t getThread_cong [OF tf] by simp
  from stream_try_success [OF p f g a t', of inp runObj msgObj msgId]
  obtain wT d4 d5 where
    s: "stream_try store (execRun inp) ab inp threadId run runObj msgObj msgId wS = (Inr (), wT)"
    and bT: "res_body wT = res_body wS @ map (delta_frame msgId) (present_messages (fst (execRun inp)))
                       @ [\<lparr>event_name = ''thread.message.completed'', payload = MessageData d4\<rparr>,
                          \<lparr>event_name = ''thread.run.completed'', payload = RunData d5\<rparr>]"
    by blast
  have "defaultStreamRun store execRun ab True inp w
          = (Inr (), wT\<lparr>res_body := res_body wT @ [\<lparr>event_name = ''done'', payload = DoneData\<rparr>],
                        res_ended := True\<rparr>)"
    unfolding e
    by (simp add: io_finally_def io_catch_def s stream_finally_run)
  then show ?thesis
    using bT b by auto
qed

lemma stream_thread_missing:
  assumes r: "resolveThreadId store inp (snd (res_writeHead 200 sse_headers w)) = (Inr threadId, w1)"
      and c: "createRun store (input_messages inp) (Some threadId) (config inp) (metadata inp) w1
                = (Inr run, w2)"
      and t: "fst (getThread store threadId w1) = Inl e"
      and g: "snd (execRun inp) = None"
      and a: "\<not> aborted_at ab (length (fst (execRun inp)))"
  shows "\<exists>w' msgId d1 d2 d3 d4 d5.
           defaultStreamRun store execRun ab True inp w = (Inr (), w')
         \<and> res_body w' = res_body w
              @ [\<lparr>event_name = ''thread.run.created'', payload = RunData d1\<rparr>,
                 \<lparr>event_name = ''thread.run.in_progress'', payload = RunData d2\<rparr>,
                 \<lparr>event_name = ''thread.message.created'', payload = MessageData d3\<rparr>]
              @ map (delta_frame msgId) (present_messages (fst (execRun inp)))
              @ [\<lparr>event_name = ''thread.message.completed'', payload = MessageData d4\<rparr>,
                 \<lparr>event_name = ''thread.run.failed'', payload = RunData d5\<rparr>,
                 \<lparr>event_name = ''done'', payload = DoneData\<rparr>]"
proof -
  from stream_prefix [where execRun = execRun and ab = ab, OF r c]
  obtain runObj msgObj msgId wS d1 d2 d3 p r1 where
    e: "defaultStreamRun store execRun ab True inp w
             = io_finally
                 (io_catch (stream_try store (execRun inp) ab inp threadId run runObj msgObj msgId)
                    (stream_catch store run runObj))
                 stream_finally wS"
    and b: "res_body wS = res_body w @ [\<lparr>event_name = ''thread.run.created'', payload = RunData d1\<rparr>,
                                        \<lparr>event_name = ''thread.run.in_progress'', payload = RunData d2\<rparr>,
                                        \<lparr>event_name = ''thread.message.created'', payload = MessageData d3\<rparr>]"
    and p: "safePath (runsDir store) (r_id run) = Inr p" and f: "run_files wS p = Some r1"
    and tf: "thread_files wS = thread_files w1"
    by blast
  have t': "fst (getThread store threadId wS) = Inl e"
    using t getThread_cong [OF tf] by simp
  from stream_try_thread_missing [OF p f g a t', of inp runObj msgObj msgId]
  obtain wT d4 where
    s: "stream_try store (execRun inp) ab inp threadId run runObj msgObj msgId wS = (Inl e, wT)"
    and bT: "res_body wT = res_body wS @ map (delta_frame msgId) (present_messages (fst (execRun inp)))
                       @ [\<lparr>event_name = ''thread.message.completed'', payload = MessageData d4\<rparr>]"
    by blast
  from stream_catch_run [of store run runObj e wT] obtain wC d5 where
    h: "stream_catch store run runObj e wT = (Inr (), wC)"
    and bC: "res_body wC = res_body wT @ [\<lparr>event_name = ''thread.run.failed'', payload = RunData d5\<rparr>]"
    by blast
  have "defaultStreamRun store execRun ab True inp w
          = (Inr (), wC\<lparr>res_body := res_body wC @ [\<lparr>event_name = ''done'', payload = DoneData\<rparr>],
                        res_ended := True\<rparr>)"
    unfolding e
    by (simp add: io_finally_def io_catch_def s h stream_finally_run)
  then show ?thesis
    using bC bT b by auto
qed

lemma safePath_demo3:
  "safePath (runsDir demo_store) ''run_a'' = Inr ''/data/runs/run_a.json''"
  by (simp_all add: demo_store_def safePath_def FileAgentStore_def path_join_def normalize_def
        normalizeString_def split_path_def Let_def)

lemma demo_stream_resolve:
  "resolveThreadId demo_store demo_input (snd (res_writeHead 200 sse_headers demo_world))
     = (Inr ''thread_a'',
        snd (resolveThreadId demo_store demo_input (snd (res_writeHead 200 sse_headers demo_world))))"
  "uuid_source (snd (resolveThreadId demo_store demo_input
                  (snd (res_writeHead 200 sse_headers demo_world))))
     (uuid_count (snd (resolveThreadId demo_store demo_input
                  (snd (res_writeHead 200 sse_headers demo_world))))) = ''aaa''"
  by (simp_all add: resolveThreadId_def demo_input_def io_bind_def createThread_run demo_world_def
        res_writeHead_def safePath_demo Let_def ok_def)


text \<open>
  Claim C1, as amended.  In every run of \<open>streamRun\<close> in a request context that reaches
  \<open>execRun\<close> (the thread id is resolved and the run is created), in which \<open>execRun\<close>
  yields its chunks and ends without an error, the client does not disconnect while
  the chunks are taken, and the thread of the run exists in the store, the handler
  returns and the frames it has written are exactly: \<open>thread.run.created\<close>,
  \<open>thread.run.in_progress\<close>, \<open>thread.message.created\<close>, one \<open>thread.message.delta\<close>
  for each chunk whose \<open>message\<close> field is present, in the order of the chunks and with the
  content blocks of that chunk, then \<open>thread.message.completed\<close>,
  \<open>thread.run.completed\<close> and \<open>done\<close>.
\<close>

theorem streamRun_success_frames:
  assumes r: "resolveThreadId store inp (snd (res_writeHead 200 sse_headers w)) = (Inr threadId, w1)"
      and c: "createRun store (input_messages inp) (Some threadId) (config inp) (metadata inp) w1
                = (Inr run, w2)"
      and t: "fst (getThread store threadId w1) = Inr thread"
      and g: "snd (execRun inp) = None"
      and a: "\<not> aborted_at ab (length (fst (execRun inp)))"
  shows "\<exists>w' msgId d1 d2 d3 d4 d5.
           defaultStreamRun store execRun ab True inp w = (Inr (), w')
         \<and> res_body w' = res_body w
              @ [\<lparr>event_name = ''thread.run.created'', payload = RunData d1\<rparr>,
                 \<lparr>event_name = ''thread.run.in_progress'', payload = RunData d2\<rparr>,
                 \<lparr>event_name = ''thread.message.created'', payload = MessageData d3\<rparr>]
              @ map (delta_frame msgId) (present_messages (fst (execRun inp)))
              @ [\<lparr>event_name = ''thread.message.completed'', payload = MessageData d4\<rparr>,
                 \<lparr>event_name = ''thread.run.completed'', payload = RunData d5\<rparr>,
                 \<lparr>event_name = ''done'', payload = DoneData\<rparr>]"
  using r c t g a by (rule stream_success)

theorem streamRun_success_frames_witness:
  "map event_name
     (res_body (snd (defaultStreamRun demo_store demo_exec NotAborted True demo_input demo_world)))
     = [''thread.run.created'', ''thread.run.in_progress'', ''thread.message.created'',
        ''thread.message.delta'', ''thread.message.completed'', ''thread.run.completed'',
        ''done'']
   \<and> delta_contents
       (res_body (snd (defaultStreamRun demo_store demo_exec NotAborted True demo_input demo_world)))
     = [[\<lparr>cb_value = ''Processed 1 messages'', cb_annotations = []\<rparr>]]"
proof -
  let ?w1 = "snd (resolveThreadId demo_store demo_input
                    (snd (res_writeHead 200 sse_headers demo_world)))"
  let ?c = "createRun demo_store (input_messages demo_input) (Some ''thread_a'') (config demo_input)
              (metadata demo_input) ?w1"
  have "\<exists>run. ?c = (Inr run, snd ?c)"
    by (simp add: createRun_run demo_stream_resolve(2) safePath_demo2 Let_def)
  then obtain run where c: "?c = (Inr run, snd ?c)"
    by blast
  from resolve_fresh [OF _ demo_stream_resolve(1)] obtain t0 where
    t: "fst (getThread demo_store ''thread_a'' ?w1) = Inr t0"
    by (auto simp add: demo_input_def)
  have g: "snd (demo_exec demo_input) = None"
    by (simp add: demo_exec_def)
  have a: "\<not> aborted_at NotAborted (length (fst (demo_exec demo_input)))"
    by simp
  have pm: "present_messages (fst (demo_exec demo_input))
            = [\<lparr>sm_role = ''assistant'',
                sm_content = StreamParts [(''text'', ''Processed 1 messages'')]\<rparr>]"
    by (simp add: present_messages_def demo_exec_def demo_chunks_def)
  have b: "res_body demo_world = []"
    by (simp add: demo_world_def)
  from streamRun_success_frames [where execRun = demo_exec, OF demo_stream_resolve(1) c t g a]
  show ?thesis
    unfolding pm b
    by (auto simp add: delta_contents_def delta_frame_def)
qed


text \<open>The claim as stated fails when the \<open>thread_id\<close> of the request names no thread:
  \<open>execRun\<close> ends without an error, \<open>appendMessages\<close> throws after
  \<open>thread.message.completed\<close> is written, and the \<open>catch\<close> clause writes
  \<open>thread.run.failed\<close> in place of \<open>thread.run.completed\<close>.\<close>

theorem streamRun_missing_thread_counterexample:
  "snd (demo_exec nope_input) = None
   \<and> map event_name
       (res_body (snd (defaultStreamRun demo_store demo_exec NotAborted True nope_input demo_world)))
     = [''thread.run.created'', ''thread.run.in_progress'', ''thread.message.created'',
        ''thread.message.delta'', ''thread.message.completed'', ''thread.run.failed'',
        ''done'']"
proof -
  let ?w0 = "snd (res_writeHead 200 sse_headers demo_world)"
  have r: "resolveThreadId demo_store nope_input ?w0 = (Inr ''thread_nope'', ?w0)"
    by (simp add: resolveThreadId_def nope_input_def ok_def)
  let ?c = "createRun demo_store (input_messages nope_input) (Some ''thread_nope'')
              (config nope_input) (metadata nope_input) ?w0"
  have u: "uuid_source ?w0 (uuid_count ?w0) = ''a''"
    by (simp add: res_writeHead_def demo_world_def)
  have "\<exists>run. ?c = (Inr run, snd ?c)"
    by (simp add: createRun_run u safePath_demo3 Let_def)
  then obtain run where c: "?c = (Inr run, snd ?c)"
    by blast
  have t: "fst (getThread demo_store ''thread_nope'' ?w0)
             = Inl (Error ''Thread thread_nope not found'')"
    by (simp add: getThread_def io_bind_def io_of_def safePath_demo readThreadFile_def
          res_writeHead_def demo_world_def throw_def)
  have g: "snd (demo_exec nope_input) = None"
    by (simp add: demo_exec_def)
  have a: "\<not> aborted_at NotAborted (length (fst (demo_exec nope_input)))"
    by simp
  have pm: "present_messages (fst (demo_exec nope_input))
            = [\<lparr>sm_role = ''assistant'',
                sm_content = StreamParts [(''text'', ''Processed 1 messages'')]\<rparr>]"
    by (simp add: present_messages_def demo_exec_def demo_chunks_def)
  have b: "res_body demo_world = []"
    by (simp add: demo_world_def)
  from stream_thread_missing [where execRun = demo_exec, OF r c t g a] g
  show ?thesis
    unfolding pm b
    by (auto simp add: delta_frame_def)
qed

section \<open>Paths of the file store stay inside its directories\<close>

subsection \<open>Splitting and joining\<close>










subsection \<open>Normalised segment lists\<close>





















subsection \<open>The shape of normalised paths\<close>









subsection \<open>Accepted paths\<close>
















end
